theory Spec2Isabelle
  imports Complex_Main "HOL-Library.Multiset" "HOL-Library.Product_Lexorder"
begin

section \<open>The TPC digit dump: zero suppression, sorting and duplicate removal\<close>

text \<open>
  This theory embeds \<^verbatim>\<open>Detectors/TPC/calibration/src/DigitDump.cxx\<close>.

  Conventions of the embedding.
  \<^item> \<^verbatim>\<open>Float_t\<close> and \<^verbatim>\<open>float\<close> values are IEEE 754 binary32 values: NaN, the two
    infinities, and sign, mantissa and exponent of a finite value. Subtraction and
    multiplication round to nearest, ties to even, overflow to an infinity, and every
    comparison with NaN is false. Each operation is evaluated in single precision
    (\<^verbatim>\<open>FLT_EVAL_METHOD\<close> 0, as on x86-64).
  \<^item> \<^verbatim>\<open>int\<close> and \<^verbatim>\<open>Int_t\<close> values are mathematical integers; the source performs one
    addition and one subtraction on row numbers, whose overflow would be undefined in C++.
  \<^item> A member function that mutates the object takes the object and returns the new one.
  \<^item> \<^verbatim>\<open>LOG(FATAL)\<close> ends the program; it is the \<open>Inl\<close> branch of a sum. Undefined behaviour that
    the claims come near (a call through a null \<^verbatim>\<open>mTree\<close>, an index beyond \<^verbatim>\<open>mDigits\<close>) is an
    \<open>Inl\<close> branch too, so that no theorem silently relies on it.
  \<^item> Warnings are collected, in order, in the field \<open>logOut\<close>. Messages of level debug are
    not recorded.
\<close>

subsection \<open>Data\<close>

text \<open>
  A single-precision value. \<open>Finite s m e\<close> is the number \<open>m * 2 ^ e\<close>, negated when \<open>s\<close>
  holds; \<open>Inf s\<close> is the infinity of that sign. Zero keeps its sign. One number has
  several representations (\<open>Finite s 2 0\<close> and \<open>Finite s 1 1\<close>); comparisons go by the number.
\<close>

datatype Float_t = NaN | Inf bool | Finite bool nat int

fun bit_length :: "nat \<Rightarrow> nat" where
  "bit_length n = (if n = 0 then 0 else Suc (bit_length (n div 2)))"

declare bit_length.simps [simp del]

definition signed_value :: "bool \<Rightarrow> nat \<Rightarrow> int \<Rightarrow> real" where
  "signed_value s m e = (if s then - (real m * 2 powi e) else real m * 2 powi e)"

text \<open>The comparisons \<^verbatim>\<open><\<close> and \<^verbatim>\<open><=\<close> of C++ on \<^verbatim>\<open>float\<close>: false as soon as one side is NaN.\<close>

fun float_less :: "Float_t \<Rightarrow> Float_t \<Rightarrow> bool" where
  "float_less NaN y = False"
| "float_less (Inf s) NaN = False"
| "float_less (Finite s m e) NaN = False"
| "float_less (Inf s) (Inf t) = (s \<and> \<not> t)"
| "float_less (Inf s) (Finite t n f) = s"
| "float_less (Finite s m e) (Inf t) = (\<not> t)"
| "float_less (Finite s m e) (Finite t n f) = (signed_value s m e < signed_value t n f)"

fun float_le :: "Float_t \<Rightarrow> Float_t \<Rightarrow> bool" where
  "float_le NaN y = False"
| "float_le (Inf s) NaN = False"
| "float_le (Finite s m e) NaN = False"
| "float_le (Inf s) (Inf t) = (s \<or> \<not> t)"
| "float_le (Inf s) (Finite t n f) = s"
| "float_le (Finite s m e) (Inf t) = (\<not> t)"
| "float_le (Finite s m e) (Finite t n f) = (signed_value s m e \<le> signed_value t n f)"

text \<open>
  Rounding the exact number \<open>m * 2 ^ e\<close> of sign \<open>s\<close> to binary32. \<open>k\<close> is the number of low
  bits that do not fit: the mantissa has 24 bits and the exponent of its last bit is at
  least -149. The bits dropped decide the rounding: up when they exceed half of the last
  bit kept, or equal it and the mantissa kept is odd. A result of \<open>2 ^ 128\<close> or more is an
  infinity, and a mantissa that rounding has carried to \<open>2 ^ 24\<close> is written with 24 bits.
\<close>

definition round_to_binary32 :: "bool \<Rightarrow> nat \<Rightarrow> int \<Rightarrow> Float_t" where
  "round_to_binary32 s m e =
     (if m = 0 then Finite s 0 0
      else
        (let k = max (int (bit_length m) - 24) (- 149 - e) in
         if k \<le> 0 then
           (if int (bit_length m) + e > 128 then Inf s else Finite s m e)
         else
           (let q = m div 2 ^ nat k;
                r = m mod 2 ^ nat k;
                half = 2 ^ (nat k - 1);
                q' = (if r > half \<or> (r = half \<and> odd q) then q + 1 else q)
            in if q' = 0 then Finite s 0 0
               else if int (bit_length q') + (e + k) > 128 then Inf s
               else if bit_length q' > 24 then Finite s (q' div 2) (e + k + 1)
               else Finite s q' (e + k))))"

definition signed_mantissa :: "bool \<Rightarrow> nat \<Rightarrow> int" where
  "signed_mantissa s m = (if s then - int m else int m)"

text \<open>
  Addition: the exact sum of two finite values, on their common last bit, rounded. An
  exact sum of zero is \<open>+0\<close>, except that \<open>-0 + -0\<close> is \<open>-0\<close>.
\<close>

fun float_add :: "Float_t \<Rightarrow> Float_t \<Rightarrow> Float_t" where
  "float_add NaN y = NaN"
| "float_add (Inf s) NaN = NaN"
| "float_add (Finite s m e) NaN = NaN"
| "float_add (Inf s) (Inf t) = (if s = t then Inf s else NaN)"
| "float_add (Inf s) (Finite t n f) = Inf s"
| "float_add (Finite s m e) (Inf t) = Inf t"
| "float_add (Finite s m e) (Finite t n f) =
     (let e0 = min e f;
          i = signed_mantissa s (m * 2 ^ nat (e - e0))
                + signed_mantissa t (n * 2 ^ nat (f - e0))
      in if i = 0 then Finite (s \<and> t) 0 0
         else round_to_binary32 (i < 0) (nat \<bar>i\<bar>) e0)"

fun float_neg :: "Float_t \<Rightarrow> Float_t" where
  "float_neg NaN = NaN"
| "float_neg (Inf s) = Inf (\<not> s)"
| "float_neg (Finite s m e) = Finite (\<not> s) m e"

text \<open>Multiplication: zero times infinity is NaN; the sign is the product of the signs.\<close>

fun float_mul :: "Float_t \<Rightarrow> Float_t \<Rightarrow> Float_t" where
  "float_mul NaN y = NaN"
| "float_mul (Inf s) NaN = NaN"
| "float_mul (Finite s m e) NaN = NaN"
| "float_mul (Inf s) (Inf t) = Inf (s \<noteq> t)"
| "float_mul (Inf s) (Finite t n f) = (if n = 0 then NaN else Inf (s \<noteq> t))"
| "float_mul (Finite s m e) (Inf t) = (if m = 0 then NaN else Inf (s \<noteq> t))"
| "float_mul (Finite s m e) (Finite t n f) = round_to_binary32 (s \<noteq> t) (m * n) (e + f)"

text \<open>
  The operators of the source on \<^verbatim>\<open>float\<close>, so that the functions below read as the code
  does. Only the symbols are declared: no law of ordered fields is assumed of them.
\<close>

instantiation Float_t :: "{zero, uminus, plus, minus, times, ord}"
begin

definition zero_Float_t :: Float_t where
  "zero_Float_t = Finite False 0 0"

definition uminus_Float_t :: "Float_t \<Rightarrow> Float_t" where
  "uminus_Float_t x = float_neg x"

definition plus_Float_t :: "Float_t \<Rightarrow> Float_t \<Rightarrow> Float_t" where
  "plus_Float_t x y = float_add x y"

definition minus_Float_t :: "Float_t \<Rightarrow> Float_t \<Rightarrow> Float_t" where
  "minus_Float_t x y = float_add x (float_neg y)"

definition times_Float_t :: "Float_t \<Rightarrow> Float_t \<Rightarrow> Float_t" where
  "times_Float_t x y = float_mul x y"

definition less_Float_t :: "Float_t \<Rightarrow> Float_t \<Rightarrow> bool" where
  "less_Float_t x y = float_less x y"

definition less_eq_Float_t :: "Float_t \<Rightarrow> Float_t \<Rightarrow> bool" where
  "less_eq_Float_t x y = float_le x y"

instance ..

end

text \<open>The values a binary32 variable can hold.\<close>

fun representable :: "Float_t \<Rightarrow> bool" where
  "representable NaN = True"
| "representable (Inf s) = True"
| "representable (Finite s m e) =
     (m = 0 \<or> (bit_length m \<le> 24 \<and> - 149 \<le> e \<and> int (bit_length m) + e \<le> 128))"

datatype RocType = IROC | OROC

text \<open>
  The class \<^verbatim>\<open>CRU\<close> is declared outside the files at hand. A value of it is represented by
  what its accessors return: \<^verbatim>\<open>int(cru)\<close>, \<^verbatim>\<open>cru.region()\<close>, \<^verbatim>\<open>cru.rocType()\<close>, \<^verbatim>\<open>cru.roc()\<close> and
  \<^verbatim>\<open>cru.sector()\<close>. No relation between the five is assumed.
\<close>

record CRU =
  number :: int
  region :: int
  rocType :: RocType
  roc :: int
  sector :: nat

text \<open>
  The geometry singleton \<^verbatim>\<open>Mapper\<close> is a parameter as well:
  \<open>getGlobalRowOffset m r\<close> stands for \<^verbatim>\<open>getPadRegionInfo(r).getGlobalRowOffset()\<close>.
\<close>

record Mapper =
  getGlobalRowOffset :: "int \<Rightarrow> int"
  getNumberOfRowsROC :: "int \<Rightarrow> int"

text \<open>A digit as its constructor \<^verbatim>\<open>Digit(cru, charge, row, pad, time)\<close> receives it.\<close>

record Digit =
  getCRU :: int
  getChargeFloat :: Float_t
  getRow :: int
  getPad :: int
  getTimeStamp :: int

text \<open>A calibration object \<^verbatim>\<open>CalPad\<close> is its \<^verbatim>\<open>getValue(roc, row, pad)\<close>.\<close>

type_synonym CalPad = "int \<Rightarrow> int \<Rightarrow> int \<Rightarrow> Float_t"

text \<open>
  What \<^verbatim>\<open>TFile::Open\<close> finds under a name: nothing (a null pointer), or a file object with
  its two status flags and the objects \<^verbatim>\<open>GetObject\<close> retrieves by name (a null pointer
  when there is none).
\<close>

record TFile =
  IsOpen :: bool
  IsZombie :: bool
  GetObject :: "string \<Rightarrow> CalPad option"

type_synonym FileSystem = "string \<Rightarrow> TFile option"

datatype log_msg =
    NoPedestalAndNoiseFileNameSet
  | DuplicateDigits bool nat nat

datatype error =
    CouldNotOpenPedestalFile string
  | NullPointer
  | IndexOutOfRange

record DigitDumpParam =
  FirstTimeBin :: int
  LastTimeBin :: int
  ADCMin :: Float_t
  ADCMax :: Float_t
  NoiseThreshold :: Float_t
  PedestalAndNoiseFile :: string

text \<open>
  The members of \<^verbatim>\<open>DigitDump\<close> that the functions below read or write. \<open>mDigits\<close> is the
  array of per-sector vectors. \<open>mTree\<close> is \<open>None\<close> for a null pointer and otherwise holds
  the entries filled so far, each entry being a copy of all sectors at the time of
  \<^verbatim>\<open>Fill()\<close>. \<open>mFile\<close> is the name of the output file once it is created.
\<close>

record DigitDump =
  mFirstTimeBin :: int
  mLastTimeBin :: int
  mADCMin :: Float_t
  mADCMax :: Float_t
  mNoiseThreshold :: Float_t
  mPedestalAndNoiseFile :: string
  mDigitFile :: string
  mPedestal :: "CalPad option"
  mNoise :: "CalPad option"
  mPadMask :: "(int \<times> int \<times> int) list"
  mDigits :: "Digit list list"
  mFile :: "string option"
  mTree :: "Digit list list list option"
  mInMemoryOnly :: bool
  mInitialized :: bool
  logOut :: "log_msg list"

subsection \<open>Configuration and initialisation\<close>

definition init :: "DigitDumpParam \<Rightarrow> DigitDump \<Rightarrow> DigitDump" where
  "init param dd =
     dd\<lparr>mFirstTimeBin := FirstTimeBin param,
        mLastTimeBin := LastTimeBin param,
        mADCMin := ADCMin param,
        mADCMax := ADCMax param,
        mNoiseThreshold := NoiseThreshold param,
        mPedestalAndNoiseFile := PedestalAndNoiseFile param\<rparr>"

definition loadNoiseAndPedestal :: "FileSystem \<Rightarrow> DigitDump \<Rightarrow> error + DigitDump" where
  "loadNoiseAndPedestal fs dd =
     (if mPedestalAndNoiseFile dd = [] then
        Inr (dd\<lparr>logOut := logOut dd @ [NoPedestalAndNoiseFileNameSet]\<rparr>)
      else
        (case fs (mPedestalAndNoiseFile dd) of
           None \<Rightarrow> Inl (CouldNotOpenPedestalFile (mPedestalAndNoiseFile dd))
         | Some f \<Rightarrow>
             if \<not> IsOpen f \<or> IsZombie f then
               Inl (CouldNotOpenPedestalFile (mPedestalAndNoiseFile dd))
             else
               Inr (dd\<lparr>mPedestal := GetObject f ''Pedestals'',
                       mNoise := GetObject f ''Noise''\<rparr>)))"

definition setupOutputTree :: "DigitDump \<Rightarrow> DigitDump" where
  "setupOutputTree dd = dd\<lparr>mFile := Some (mDigitFile dd), mTree := Some []\<rparr>"

definition initInputOutput :: "FileSystem \<Rightarrow> DigitDump \<Rightarrow> error + DigitDump" where
  "initInputOutput fs dd =
     (case loadNoiseAndPedestal fs dd of
        Inl e \<Rightarrow> Inl e
      | Inr dd1 \<Rightarrow>
          Inr ((if \<not> mInMemoryOnly dd1 then setupOutputTree dd1 else dd1)
                 \<lparr>mInitialized := True\<rparr>))"

subsection \<open>The signal filter \<^verbatim>\<open>updateCRU\<close>\<close>

text \<open>
  Modelled from the spec: \<^verbatim>\<open>addDigit\<close> is defined in the class declaration, which is not
  among the files; the spec says that on acceptance the filter emits a digit with the
  corrected charge and appends it to the partition's digit store. The partition is that
  of \<^verbatim>\<open>cru.sector()\<close>; an index beyond the array is reported as an error.
\<close>

definition addDigit ::
  "DigitDump \<Rightarrow> CRU \<Rightarrow> Float_t \<Rightarrow> int \<Rightarrow> int \<Rightarrow> int \<Rightarrow> error + DigitDump" where
  "addDigit dd cru signal row pad timeBin =
     (if sector cru < length (mDigits dd) then
        Inr (dd\<lparr>mDigits := (mDigits dd)
               [sector cru := mDigits dd ! sector cru @
                  [\<lparr>getCRU = number cru, getChargeFloat = signal, getRow = row,
                    getPad = pad, getTimeStamp = timeBin\<rparr>]]\<rparr>)
      else Inl IndexOutOfRange)"

text \<open>The local variables of \<^verbatim>\<open>updateCRU\<close>, each as a function of what it is computed from.\<close>

definition globalRow :: "Mapper \<Rightarrow> CRU \<Rightarrow> int \<Rightarrow> int" where
  "globalRow mapper cru row = row + getGlobalRowOffset mapper (region cru)"

definition sectorRow :: "Mapper \<Rightarrow> CRU \<Rightarrow> int \<Rightarrow> int" where
  "sectorRow mapper cru row =
     globalRow mapper cru row
       - (if rocType cru = OROC then 1 else 0) * getNumberOfRowsROC mapper 0"

definition pedestal :: "DigitDump \<Rightarrow> Mapper \<Rightarrow> CRU \<Rightarrow> int \<Rightarrow> int \<Rightarrow> Float_t" where
  "pedestal dd mapper cru row pad =
     (case mPedestal dd of
        None \<Rightarrow> 0
      | Some p \<Rightarrow> p (roc cru) (sectorRow mapper cru row) pad)"

definition noise :: "DigitDump \<Rightarrow> Mapper \<Rightarrow> CRU \<Rightarrow> int \<Rightarrow> int \<Rightarrow> Float_t" where
  "noise dd mapper cru row pad =
     (case mNoise dd of
        None \<Rightarrow> 0
      | Some p \<Rightarrow> p (roc cru) (sectorRow mapper cru row) pad)"

definition signalCorr :: "DigitDump \<Rightarrow> Mapper \<Rightarrow> CRU \<Rightarrow> int \<Rightarrow> int \<Rightarrow> Float_t \<Rightarrow> Float_t" where
  "signalCorr dd mapper cru row pad signal = signal - pedestal dd mapper cru row pad"

text \<open>
  The five ways out of \<^verbatim>\<open>updateCRU\<close>: the \<^verbatim>\<open>return\<close> statements of lines 53, 79, 83, 88
  and 95 of the source, in this order. The function returns its \<^verbatim>\<open>Int_t\<close> together with
  the statement that produced it and the object as the call leaves it.
\<close>

datatype Decision = RejectTimeWindow | RejectAmplitude | RejectNoise | MaskedPad | Accept

definition updateCRU ::
  "FileSystem \<Rightarrow> Mapper \<Rightarrow> DigitDump \<Rightarrow> CRU \<Rightarrow> int \<Rightarrow> int \<Rightarrow> int \<Rightarrow> Float_t
     \<Rightarrow> error + (int \<times> Decision \<times> DigitDump)" where
  "updateCRU fs mapper dd cru row pad timeBin signal =
     (if timeBin < mFirstTimeBin dd \<or> timeBin > mLastTimeBin dd then
        Inr (0, RejectTimeWindow, dd)
      else
        (case (if \<not> mInitialized dd then initInputOutput fs dd else Inr dd) of
           Inl e \<Rightarrow> Inl e
         | Inr dd1 \<Rightarrow>
             if signalCorr dd1 mapper cru row pad signal < mADCMin dd1
                \<or> signalCorr dd1 mapper cru row pad signal > mADCMax dd1 then
               Inr (0, RejectAmplitude, dd1)
             else if mNoiseThreshold dd1 > 0
                \<and> signalCorr dd1 mapper cru row pad signal
                    < noise dd1 mapper cru row pad * mNoiseThreshold dd1 then
               Inr (0, RejectNoise, dd1)
             else if mPadMask dd1 \<noteq> []
                \<and> List.member (mPadMask dd1) (roc cru, sectorRow mapper cru row, pad) then
               Inr (1, MaskedPad, dd1)
             else
               (case addDigit dd1 cru (signalCorr dd1 mapper cru row pad signal)
                       (globalRow mapper cru row) pad timeBin of
                  Inl e \<Rightarrow> Inl e
                | Inr dd2 \<Rightarrow> Inr (0, Accept, dd2))))"

subsection \<open>Sorting\<close>

text \<open>The comparison that \<^verbatim>\<open>sortDigits\<close> hands to \<^verbatim>\<open>std::sort\<close>.\<close>

definition digit_less :: "Digit \<Rightarrow> Digit \<Rightarrow> bool" where
  "digit_less a b =
     (if getTimeStamp a < getTimeStamp b then True
      else if getTimeStamp a = getTimeStamp b then
        (if getRow a < getRow b then True
         else if getRow a = getRow b then getPad a < getPad b
         else False)
      else False)"

text \<open>
  \<^verbatim>\<open>std::sort\<close> belongs to the C++ library. The standard fixes its result only up to the
  order of equivalent elements: given a strict weak ordering, the range is rearranged
  so that no element is less than one before it; unlike \<^verbatim>\<open>std::stable_sort\<close>, the order
  of equivalent elements is not guaranteed to be preserved. An implementation of it is therefore
  a parameter of every function below that sorts, and \<open>std_sort_contract\<close> is what the
  standard promises of it.
\<close>

type_synonym 'a sorter = "('a \<Rightarrow> 'a \<Rightarrow> bool) \<Rightarrow> 'a list \<Rightarrow> 'a list"

definition strict_weak_order :: "('a \<Rightarrow> 'a \<Rightarrow> bool) \<Rightarrow> bool" where
  "strict_weak_order lt \<longleftrightarrow>
     (\<forall>a. \<not> lt a a) \<and>
     (\<forall>a b c. lt a b \<and> lt b c \<longrightarrow> lt a c) \<and>
     (\<forall>a b c. \<not> lt a b \<and> \<not> lt b a \<and> \<not> lt b c \<and> \<not> lt c b
                \<longrightarrow> \<not> lt a c \<and> \<not> lt c a)"

definition std_sort_contract :: "'a sorter \<Rightarrow> bool" where
  "std_sort_contract srt \<longleftrightarrow>
     (\<forall>lt xs. strict_weak_order lt \<longrightarrow>
        mset (srt lt xs) = mset xs \<and>
        sorted_wrt (\<lambda>a b. \<not> lt b a) (srt lt xs))"

definition sortDigits :: "Digit sorter \<Rightarrow> DigitDump \<Rightarrow> DigitDump" where
  "sortDigits srt dd = dd\<lparr>mDigits := map (srt digit_less) (mDigits dd)\<rparr>"

text \<open>
  Two implementations that meet the contract. \<open>insertion_sort\<close> keeps equivalent elements
  in their order; \<open>ties_reversing_sort\<close> reverses them.
\<close>

fun insert_by :: "('a \<Rightarrow> 'a \<Rightarrow> bool) \<Rightarrow> 'a \<Rightarrow> 'a list \<Rightarrow> 'a list" where
  "insert_by lt x [] = [x]"
| "insert_by lt x (y # ys) =
     (if lt y x then y # insert_by lt x ys else x # y # ys)"

definition insertion_sort :: "'a sorter" where
  "insertion_sort lt xs = foldr (insert_by lt) xs []"

definition ties_reversing_sort :: "'a sorter" where
  "ties_reversing_sort lt xs = rev (insertion_sort (\<lambda>a b. lt b a) xs)"

subsection \<open>The sort of the GNU C++ library\<close>

text \<open>
  \<^verbatim>\<open>std::sort\<close> as libstdc++ implements it (\<^verbatim>\<open>bits/stl_algo.h\<close>, \<^verbatim>\<open>bits/stl_heap.h\<close>): an
  introsort. Ranges longer than 16 are partitioned around the median of three, down to a
  depth of twice the binary logarithm of the length, below which heap sort takes over;
  one insertion sort finishes. A vector is a list and an iterator is a position in it.
  The scans of the partition and of the insertion are unguarded in the library; here
  they also stop at the ends of the vector, which a strict weak ordering never lets them
  reach. The result on a given vector is obtained by evaluating these definitions; that
  the algorithm meets the contract above is the specification of the library and is not
  proved here.
\<close>

definition iter_swap :: "nat \<Rightarrow> nat \<Rightarrow> 'a list \<Rightarrow> 'a list" where
  "iter_swap i j v = v[i := v ! j, j := v ! i]"

definition move_median_to_first ::
  "('a \<Rightarrow> 'a \<Rightarrow> bool) \<Rightarrow> nat \<Rightarrow> nat \<Rightarrow> nat \<Rightarrow> nat \<Rightarrow> 'a list \<Rightarrow> 'a list" where
  "move_median_to_first lt result a b c v =
     (if lt (v ! a) (v ! b) then
        (if lt (v ! b) (v ! c) then iter_swap result b v
         else if lt (v ! a) (v ! c) then iter_swap result c v
         else iter_swap result a v)
      else if lt (v ! a) (v ! c) then iter_swap result a v
      else if lt (v ! b) (v ! c) then iter_swap result c v
      else iter_swap result b v)"

text \<open>The two inner loops of \<^verbatim>\<open>__unguarded_partition\<close>.\<close>

function scan_up :: "('a \<Rightarrow> 'a \<Rightarrow> bool) \<Rightarrow> 'a list \<Rightarrow> nat \<Rightarrow> nat \<Rightarrow> nat" where
  "scan_up lt v pivot first =
     (if first < length v \<and> lt (v ! first) (v ! pivot) then scan_up lt v pivot (Suc first)
      else first)"
  by pat_completeness auto
termination
  by (relation "measure (\<lambda>(lt, v, pivot, first). length v - first)") auto

declare scan_up.simps [simp del]

fun scan_down :: "('a \<Rightarrow> 'a \<Rightarrow> bool) \<Rightarrow> 'a list \<Rightarrow> nat \<Rightarrow> nat \<Rightarrow> nat" where
  "scan_down lt v pivot 0 = 0"
| "scan_down lt v pivot (Suc last_it) =
     (if lt (v ! pivot) (v ! Suc last_it) then scan_down lt v pivot last_it else Suc last_it)"

function unguarded_partition ::
  "('a \<Rightarrow> 'a \<Rightarrow> bool) \<Rightarrow> nat \<Rightarrow> nat \<Rightarrow> nat \<Rightarrow> 'a list \<Rightarrow> nat \<times> 'a list" where
  "unguarded_partition lt pivot first last_it v =
     (let first' = scan_up lt v pivot first;
          last' = scan_down lt v pivot (last_it - 1)
      in if \<not> first' < last' then (first', v)
         else unguarded_partition lt pivot (Suc first') last' (iter_swap first' last' v))"
  by pat_completeness auto
termination
proof (relation "measure (\<lambda>(lt, pivot, first, last_it, v). last_it - first)", goal_cases)
  case 1
  show ?case by simp
next
  case (2 lt pivot first last_it v first' last')
  have up: "i \<le> scan_up lt v pivot i" for i
  proof (induction lt v pivot i rule: scan_up.induct)
    case (1 lt v pivot i)
    show ?case
    proof (cases "i < length v \<and> lt (v ! i) (v ! pivot)")
      case True
      with 1 have "Suc i \<le> scan_up lt v pivot (Suc i)" by simp
      moreover from True have "scan_up lt v pivot i = scan_up lt v pivot (Suc i)"
        by (subst scan_up.simps) simp
      ultimately show ?thesis by simp
    next
      case False
      then have "scan_up lt v pivot i = i" by (subst scan_up.simps) auto
      then show ?thesis by simp
    qed
  qed
  have down: "scan_down lt v pivot j \<le> j" for j
    by (induction j) (auto simp: le_SucI)
  from 2 up[of first] down[of "last_it - 1"] show ?case by simp
qed

declare unguarded_partition.simps [simp del]

definition unguarded_partition_pivot ::
  "('a \<Rightarrow> 'a \<Rightarrow> bool) \<Rightarrow> nat \<Rightarrow> nat \<Rightarrow> 'a list \<Rightarrow> nat \<times> 'a list" where
  "unguarded_partition_pivot lt first last_it v =
     (let mid = first + (last_it - first) div 2
      in unguarded_partition lt first (first + 1) last_it
           (move_median_to_first lt first (first + 1) mid (last_it - 1) v))"

text \<open>
  Heap sort. The heap occupies the positions from \<open>first\<close>; \<open>holeIndex\<close>, \<open>topIndex\<close>,
  \<open>secondChild\<close> and \<open>len\<close> count from there.
\<close>

function push_heap ::
  "('a \<Rightarrow> 'a \<Rightarrow> bool) \<Rightarrow> nat \<Rightarrow> nat \<Rightarrow> nat \<Rightarrow> 'a \<Rightarrow> 'a list \<Rightarrow> 'a list" where
  "push_heap lt first holeIndex topIndex val v =
     (if holeIndex > topIndex \<and> lt (v ! (first + (holeIndex - 1) div 2)) val then
        push_heap lt first ((holeIndex - 1) div 2) topIndex val
          (v[first + holeIndex := v ! (first + (holeIndex - 1) div 2)])
      else v[first + holeIndex := val])"
  by pat_completeness auto
termination
  by (relation "measure (\<lambda>(lt, first, holeIndex, topIndex, val, v). holeIndex)") auto

declare push_heap.simps [simp del]

function adjust_heap_loop ::
  "('a \<Rightarrow> 'a \<Rightarrow> bool) \<Rightarrow> nat \<Rightarrow> nat \<Rightarrow> nat \<Rightarrow> nat \<Rightarrow> 'a list \<Rightarrow> nat \<times> nat \<times> 'a list" where
  "adjust_heap_loop lt first len holeIndex secondChild v =
     (if secondChild < (len - 1) div 2 then
        (let c = 2 * (secondChild + 1);
             c' = (if lt (v ! (first + c)) (v ! (first + (c - 1))) then c - 1 else c)
         in adjust_heap_loop lt first len c' c' (v[first + holeIndex := v ! (first + c')]))
      else (holeIndex, secondChild, v))"
  by pat_completeness auto
termination
  by (relation "measure (\<lambda>(lt, first, len, holeIndex, secondChild, v). len - secondChild)")
    (auto simp: Let_def)

declare adjust_heap_loop.simps [simp del]

definition adjust_heap ::
  "('a \<Rightarrow> 'a \<Rightarrow> bool) \<Rightarrow> nat \<Rightarrow> nat \<Rightarrow> nat \<Rightarrow> 'a \<Rightarrow> 'a list \<Rightarrow> 'a list" where
  "adjust_heap lt first holeIndex len val v =
     (case adjust_heap_loop lt first len holeIndex holeIndex v of
        (hole, secondChild, v1) \<Rightarrow>
          if even len \<and> 2 \<le> len \<and> secondChild = (len - 2) div 2 then
            push_heap lt first (2 * (secondChild + 1) - 1) holeIndex val
              (v1[first + hole := v1 ! (first + (2 * (secondChild + 1) - 1))])
          else push_heap lt first hole holeIndex val v1)"

fun make_heap_loop ::
  "('a \<Rightarrow> 'a \<Rightarrow> bool) \<Rightarrow> nat \<Rightarrow> nat \<Rightarrow> nat \<Rightarrow> 'a list \<Rightarrow> 'a list" where
  "make_heap_loop lt first len 0 v = adjust_heap lt first 0 len (v ! first) v"
| "make_heap_loop lt first len (Suc parent) v =
     make_heap_loop lt first len parent
       (adjust_heap lt first (Suc parent) len (v ! (first + Suc parent)) v)"

definition make_heap :: "('a \<Rightarrow> 'a \<Rightarrow> bool) \<Rightarrow> nat \<Rightarrow> nat \<Rightarrow> 'a list \<Rightarrow> 'a list" where
  "make_heap lt first last_it v =
     (if last_it - first < 2 then v
      else make_heap_loop lt first (last_it - first) ((last_it - first - 2) div 2) v)"

definition pop_heap ::
  "('a \<Rightarrow> 'a \<Rightarrow> bool) \<Rightarrow> nat \<Rightarrow> nat \<Rightarrow> nat \<Rightarrow> 'a list \<Rightarrow> 'a list" where
  "pop_heap lt first last_it result v =
     adjust_heap lt first 0 (last_it - first) (v ! result) (v[result := v ! first])"

function sort_heap :: "('a \<Rightarrow> 'a \<Rightarrow> bool) \<Rightarrow> nat \<Rightarrow> nat \<Rightarrow> 'a list \<Rightarrow> 'a list" where
  "sort_heap lt first last_it v =
     (if last_it - first > 1 then
        sort_heap lt first (last_it - 1) (pop_heap lt first (last_it - 1) (last_it - 1) v)
      else v)"
  by pat_completeness auto
termination
  by (relation "measure (\<lambda>(lt, first, last_it, v). last_it - first)") auto

declare sort_heap.simps [simp del]

text \<open>\<^verbatim>\<open>__partial_sort(first, last, last)\<close>: with the middle at the end, a heap sort.\<close>

definition partial_sort :: "('a \<Rightarrow> 'a \<Rightarrow> bool) \<Rightarrow> nat \<Rightarrow> nat \<Rightarrow> 'a list \<Rightarrow> 'a list" where
  "partial_sort lt first last_it v = sort_heap lt first last_it (make_heap lt first last_it v)"

text \<open>
  \<^verbatim>\<open>__introsort_loop\<close>: the recursive call sorts the upper part, the next turn of the loop
  the lower part, both with the depth limit already decreased.
\<close>

fun introsort_loop ::
  "('a \<Rightarrow> 'a \<Rightarrow> bool) \<Rightarrow> nat \<Rightarrow> nat \<Rightarrow> nat \<Rightarrow> 'a list \<Rightarrow> 'a list" where
  "introsort_loop lt first last_it 0 v =
     (if last_it - first > 16 then partial_sort lt first last_it v else v)"
| "introsort_loop lt first last_it (Suc depth_limit) v =
     (if last_it - first > 16 then
        (case unguarded_partition_pivot lt first last_it v of
           (cut_it, v1) \<Rightarrow>
             introsort_loop lt first cut_it depth_limit
               (introsort_loop lt cut_it last_it depth_limit v1))
      else v)"

fun unguarded_linear_insert ::
  "('a \<Rightarrow> 'a \<Rightarrow> bool) \<Rightarrow> 'a \<Rightarrow> nat \<Rightarrow> 'a list \<Rightarrow> 'a list" where
  "unguarded_linear_insert lt val 0 v = v[0 := val]"
| "unguarded_linear_insert lt val (Suc next) v =
     (if lt val (v ! next) then unguarded_linear_insert lt val next (v[Suc next := v ! next])
      else v[Suc next := val])"

text \<open>
  One turn of \<^verbatim>\<open>__insertion_sort\<close>: an element below the first one is moved to the front,
  the elements before it one place up; any other is inserted without a guard.
\<close>

definition move_to_front :: "nat \<Rightarrow> nat \<Rightarrow> 'a list \<Rightarrow> 'a list" where
  "move_to_front first i v =
     take first v @ [v ! i] @ take (i - first) (drop first v) @ drop (Suc i) v"

definition insertion_step :: "('a \<Rightarrow> 'a \<Rightarrow> bool) \<Rightarrow> nat \<Rightarrow> 'a list \<Rightarrow> nat \<Rightarrow> 'a list" where
  "insertion_step lt first v i =
     (if lt (v ! i) (v ! first) then move_to_front first i v
      else unguarded_linear_insert lt (v ! i) i v)"

definition insertion_sort_range ::
  "('a \<Rightarrow> 'a \<Rightarrow> bool) \<Rightarrow> nat \<Rightarrow> nat \<Rightarrow> 'a list \<Rightarrow> 'a list" where
  "insertion_sort_range lt first last_it v =
     (if first = last_it then v else foldl (insertion_step lt first) v [first + 1 ..< last_it])"

definition unguarded_insertion_sort ::
  "('a \<Rightarrow> 'a \<Rightarrow> bool) \<Rightarrow> nat \<Rightarrow> nat \<Rightarrow> 'a list \<Rightarrow> 'a list" where
  "unguarded_insertion_sort lt first last_it v =
     foldl (\<lambda>v i. unguarded_linear_insert lt (v ! i) i v) v [first ..< last_it]"

definition final_insertion_sort ::
  "('a \<Rightarrow> 'a \<Rightarrow> bool) \<Rightarrow> nat \<Rightarrow> nat \<Rightarrow> 'a list \<Rightarrow> 'a list" where
  "final_insertion_sort lt first last_it v =
     (if last_it - first > 16 then
        unguarded_insertion_sort lt (first + 16) last_it
          (insertion_sort_range lt first (first + 16) v)
      else insertion_sort_range lt first last_it v)"

text \<open>\<^verbatim>\<open>std::sort\<close>; \<open>bit_length n - 1\<close> is \<^verbatim>\<open>std::__lg(n)\<close>.\<close>

definition libstdcxx_sort :: "'a sorter" where
  "libstdcxx_sort lt v =
     (if v = [] then v
      else final_insertion_sort lt 0 (length v)
             (introsort_loop lt 0 (length v) (2 * (bit_length (length v) - 1)) v))"

subsection \<open>End of event\<close>

text \<open>
  Modelled from the spec: \<^verbatim>\<open>clearDigits\<close> is defined in the class declaration, which is
  not among the files; the spec says that clearing empties all partitions.
\<close>

definition clearDigits :: "DigitDump \<Rightarrow> DigitDump" where
  "clearDigits dd = dd\<lparr>mDigits := map (\<lambda>digits. []) (mDigits dd)\<rparr>"

definition endEvent :: "Digit sorter \<Rightarrow> DigitDump \<Rightarrow> error + DigitDump" where
  "endEvent srt dd =
     (let dd1 = sortDigits srt dd in
      case mTree dd1 of
        None \<Rightarrow> Inl NullPointer
      | Some entries \<Rightarrow> Inr (clearDigits (dd1\<lparr>mTree := Some (entries @ [mDigits dd1])\<rparr>)))"

subsection \<open>Duplicates\<close>

definition isEqual :: "Digit \<Rightarrow> Digit \<Rightarrow> bool" where
  "isEqual a b \<longleftrightarrow>
     getTimeStamp a = getTimeStamp b \<and> getRow a = getRow b \<and> getPad a = getPad b"

text \<open>
  \<^verbatim>\<open>std::unique\<close> with a predicate: of every group of consecutive elements that the
  predicate relates to the element kept last, only that element stays.
\<close>

fun std_unique :: "('a \<Rightarrow> 'a \<Rightarrow> bool) \<Rightarrow> 'a list \<Rightarrow> 'a list" where
  "std_unique p [] = []"
| "std_unique p [x] = [x]"
| "std_unique p (x # y # ys) =
     (if p x y then std_unique p (x # ys) else x # std_unique p (y # ys))"

text \<open>
  The loop of the report-only branch: \<open>prev\<close> is \<^verbatim>\<open>*(first - 1)\<close>, the list is what lies
  from \<^verbatim>\<open>first\<close> to \<^verbatim>\<open>last\<close>, and \<open>n\<close> is \<^verbatim>\<open>nDuplicates\<close>.
\<close>

fun count_loop :: "Digit \<Rightarrow> Digit list \<Rightarrow> nat \<Rightarrow> nat" where
  "count_loop prev [] n = n"
| "count_loop prev (d # ds) n = count_loop d ds (n + (if isEqual prev d then 1 else 0))"

text \<open>
  The body of the loop over the sectors: the vector as the body leaves it, and
  \<^verbatim>\<open>nDuplicates\<close> (0 for the empty vector, which the body skips).
\<close>

definition checkDuplicates_sector :: "bool \<Rightarrow> Digit list \<Rightarrow> Digit list \<times> nat" where
  "checkDuplicates_sector removeDuplicates digits =
     (case digits of
        [] \<Rightarrow> ([], 0)
      | d # ds \<Rightarrow>
          if removeDuplicates then
            (std_unique isEqual digits, length digits - length (std_unique isEqual digits))
          else (digits, count_loop d ds 0))"

text \<open>The warnings of the loop, sector by sector, from the counts of all sectors.\<close>

fun duplicate_warnings :: "bool \<Rightarrow> nat \<Rightarrow> nat list \<Rightarrow> log_msg list" where
  "duplicate_warnings removeDuplicates iSec [] = []"
| "duplicate_warnings removeDuplicates iSec (n # ns) =
     (if n \<noteq> 0 then [DuplicateDigits removeDuplicates n iSec] else [])
       @ duplicate_warnings removeDuplicates (Suc iSec) ns"

definition nDuplicates :: "Digit sorter \<Rightarrow> bool \<Rightarrow> DigitDump \<Rightarrow> nat list" where
  "nDuplicates srt removeDuplicates dd =
     map (\<lambda>digits. snd (checkDuplicates_sector removeDuplicates digits))
       (mDigits (sortDigits srt dd))"

definition checkDuplicates :: "Digit sorter \<Rightarrow> bool \<Rightarrow> DigitDump \<Rightarrow> DigitDump" where
  "checkDuplicates srt removeDuplicates dd =
     (let dd1 = sortDigits srt dd in
      dd1\<lparr>mDigits :=
            map (\<lambda>digits. fst (checkDuplicates_sector removeDuplicates digits)) (mDigits dd1),
          logOut :=
            logOut dd1 @ duplicate_warnings removeDuplicates 0 (nDuplicates srt removeDuplicates dd)\<rparr>)"

text \<open>
  The words of the specification, for comparison with the code: the key of a digit, and
  the maximal runs of adjacent entries with identical key.
\<close>

definition digit_key :: "Digit \<Rightarrow> int \<times> int \<times> int" where
  "digit_key d = (getTimeStamp d, getRow d, getPad d)"

fun runs :: "Digit list \<Rightarrow> Digit list list" where
  "runs [] = []"
| "runs (d # ds) =
     (case runs ds of
        [] \<Rightarrow> [[d]]
      | r # rs \<Rightarrow> if digit_key d = digit_key (hd r) then (d # r) # rs else [d] # r # rs)"


text \<open>
  The decision procedure of the specification (section 4.1, steps 1 to 8), for comparison
  with \<open>updateCRU\<close>: the first failing check names the decision.
\<close>

definition spec_evaluate ::
  "DigitDump \<Rightarrow> Mapper \<Rightarrow> CRU \<Rightarrow> int \<Rightarrow> int \<Rightarrow> int \<Rightarrow> Float_t \<Rightarrow> Decision" where
  "spec_evaluate dd mapper cru row pad timeBin signal =
     (if timeBin < mFirstTimeBin dd \<or> timeBin > mLastTimeBin dd then RejectTimeWindow
      else if signalCorr dd mapper cru row pad signal < mADCMin dd
            \<or> signalCorr dd mapper cru row pad signal > mADCMax dd then RejectAmplitude
      else if mNoiseThreshold dd > 0
            \<and> signalCorr dd mapper cru row pad signal
                < noise dd mapper cru row pad * mNoiseThreshold dd then RejectNoise
      else if (roc cru, sectorRow mapper cru row, pad) \<in> set (mPadMask dd) then MaskedPad
      else Accept)"

subsection \<open>Concrete values\<close>

text \<open>
  A small instance on which the theorems below are exercised: three sectors, a
  calibration file with pedestal 2 and noise 4 on pad 7 of row 20 of readout chamber 37
  (pedestal 100 and noise 0 on every other pad), and the digits of the specification's
  example.
\<close>

definition example_param :: DigitDumpParam where
  "example_param =
     \<lparr>FirstTimeBin = 0, LastTimeBin = 1000, ADCMin = Finite True 100 0,
      ADCMax = Finite False 1024 0, NoiseThreshold = Finite True 1 0,
      PedestalAndNoiseFile = ''pedestals.root''\<rparr>"

definition fresh_dump :: DigitDump where
  "fresh_dump =
     \<lparr>mFirstTimeBin = 0, mLastTimeBin = 1000, mADCMin = Finite True 100 0,
      mADCMax = Finite False 1024 0, mNoiseThreshold = Finite True 1 0,
      mPedestalAndNoiseFile = [], mDigitFile = ''digits.root'',
      mPedestal = None, mNoise = None, mPadMask = [], mDigits = [[], [], []],
      mFile = None, mTree = None, mInMemoryOnly = False, mInitialized = False,
      logOut = []\<rparr>"

definition example_pedestals :: CalPad where
  "example_pedestals =
     (\<lambda>roc row pad. if roc = 37 \<and> row = 20 \<and> pad = 7 then Finite False 2 0
                    else Finite False 100 0)"

definition example_noise :: CalPad where
  "example_noise =
     (\<lambda>roc row pad. if roc = 37 \<and> row = 20 \<and> pad = 7 then Finite False 4 0
                    else Finite False 0 0)"

definition example_fs :: FileSystem where
  "example_fs =
     (\<lambda>name. if name = ''pedestals.root'' then
        Some \<lparr>IsOpen = True, IsZombie = False,
              GetObject = (\<lambda>key. if key = ''Pedestals'' then Some example_pedestals
                                 else if key = ''Noise'' then Some example_noise
                                 else None)\<rparr>
      else None)"

definition empty_fs :: FileSystem where
  "empty_fs = (\<lambda>name. None)"

definition example_mapper :: Mapper where
  "example_mapper =
     \<lparr>getGlobalRowOffset = (\<lambda>region. 16 * region), getNumberOfRowsROC = (\<lambda>roc. 63)\<rparr>"

definition example_cru :: CRU where
  "example_cru = \<lparr>number = 15, region = 5, rocType = OROC, roc = 37, sector = 1\<rparr>"

text \<open>The configured object before its first sample, and once it is initialised.\<close>

definition example_dump :: DigitDump where
  "example_dump = init example_param fresh_dump"

definition ready_dump :: DigitDump where
  "ready_dump =
     example_dump\<lparr>mPedestal := Some example_pedestals, mNoise := Some example_noise,
                  mFile := Some ''digits.root'', mTree := Some [], mInitialized := True\<rparr>"

definition digit_a :: Digit where
  "digit_a =
     \<lparr>getCRU = 15, getChargeFloat = Finite False 10 0, getRow = 2, getPad = 3,
      getTimeStamp = 5\<rparr>"

definition digit_b :: Digit where
  "digit_b =
     \<lparr>getCRU = 15, getChargeFloat = Finite False 5 0, getRow = 1, getPad = 1,
      getTimeStamp = 3\<rparr>"

definition digit_c :: Digit where
  "digit_c =
     \<lparr>getCRU = 15, getChargeFloat = Finite False 9 0, getRow = 2, getPad = 3,
      getTimeStamp = 5\<rparr>"

definition filled_dump :: DigitDump where
  "filled_dump = ready_dump\<lparr>mDigits := [[], [digit_a, digit_b, digit_c], []]\<rparr>"

definition noisy_dump :: DigitDump where
  "noisy_dump = ready_dump\<lparr>mNoiseThreshold := Finite False 3 0\<rparr>"

definition masked_dump :: DigitDump where
  "masked_dump = ready_dump\<lparr>mPadMask := [(37, 20, 7)]\<rparr>"

definition neighbour_digit :: Digit where
  "neighbour_digit =
     \<lparr>getCRU = 15, getChargeFloat = Finite False 12 0, getRow = 83, getPad = 8,
      getTimeStamp = 5\<rparr>"

definition accepted_digit :: Digit where
  "accepted_digit =
     \<lparr>getCRU = 15, getChargeFloat = Finite False 10 0, getRow = 83, getPad = 7,
      getTimeStamp = 5\<rparr>"

definition tied_dump :: DigitDump where
  "tied_dump = ready_dump\<lparr>mDigits := [[digit_a, digit_c]]\<rparr>"

text \<open>
  A digit whose charge is not a number, as a sample whose signal is NaN leaves it, and a
  configuration with an infinite noise threshold and no noise table.
\<close>

definition nan_digit :: Digit where
  "nan_digit =
     \<lparr>getCRU = 15, getChargeFloat = NaN, getRow = 83, getPad = 7, getTimeStamp = 5\<rparr>"

definition unbounded_dump :: DigitDump where
  "unbounded_dump = ready_dump\<lparr>mNoise := None, mNoiseThreshold := Inf False\<rparr>"

definition negative_digit :: Digit where
  "negative_digit =
     \<lparr>getCRU = 15, getChargeFloat = Finite True 1 0, getRow = 83, getPad = 7,
      getTimeStamp = 5\<rparr>"

text \<open>
  A pedestal just below 1 (the largest \<^verbatim>\<open>float\<close> below it), for which the subtraction
  rounds: 1025 minus this pedestal is 1024 in single precision.
\<close>

definition fine_pedestals :: CalPad where
  "fine_pedestals = (\<lambda>roc row pad. Finite False 16777215 (- 24))"

definition fine_dump :: DigitDump where
  "fine_dump = ready_dump\<lparr>mPedestal := Some fine_pedestals\<rparr>"

definition rounded_digit :: Digit where
  "rounded_digit =
     \<lparr>getCRU = 15, getChargeFloat = Finite False 8388608 (- 13), getRow = 83, getPad = 7,
      getTimeStamp = 5\<rparr>"

text \<open>
  Seventeen digits of one pad row in the order of their time bins, the digits at
  positions 7 and 8 sharing time bin 7: a sorted sector with one digit present twice,
  with two charges. \<open>seventeen_sorted\<close> is the same sector with these two exchanged.
\<close>

definition timed_digit :: "nat \<Rightarrow> int \<Rightarrow> Digit" where
  "timed_digit charge time =
     \<lparr>getCRU = 15, getChargeFloat = Finite False charge 0, getRow = 2, getPad = 3,
      getTimeStamp = time\<rparr>"

definition seventeen_digits :: "Digit list" where
  "seventeen_digits =
     [timed_digit 0 0, timed_digit 1 1, timed_digit 2 2, timed_digit 3 3, timed_digit 4 4,
      timed_digit 5 5, timed_digit 6 6, timed_digit 7 7, timed_digit 8 7, timed_digit 9 8,
      timed_digit 10 9, timed_digit 11 10, timed_digit 12 11, timed_digit 13 12,
      timed_digit 14 13, timed_digit 15 14, timed_digit 16 15]"

definition seventeen_sorted :: "Digit list" where
  "seventeen_sorted =
     [timed_digit 0 0, timed_digit 1 1, timed_digit 2 2, timed_digit 3 3, timed_digit 4 4,
      timed_digit 5 5, timed_digit 6 6, timed_digit 8 7, timed_digit 7 7, timed_digit 9 8,
      timed_digit 10 9, timed_digit 11 10, timed_digit 12 11, timed_digit 13 12,
      timed_digit 14 13, timed_digit 15 14, timed_digit 16 15]"

definition seventeen_dump :: DigitDump where
  "seventeen_dump = ready_dump\<lparr>mDigits := [seventeen_digits]\<rparr>"

section \<open>Properties of the single-precision operations\<close>

subsection \<open>Evaluation\<close>

lemma bit_length_0: "bit_length 0 = 0"
  by (simp add: bit_length.simps[of 0])

lemma bit_length_Suc: "bit_length (Suc n) = Suc (bit_length (Suc n div 2))"
  by (simp add: bit_length.simps[of "Suc n"])

lemma bit_length_1: "bit_length 1 = 1"
  using bit_length_Suc[of 0] by (simp add: bit_length_0)

lemma bit_length_numeral: "bit_length (numeral k) = Suc (bit_length (numeral k div 2))"
  by (simp add: bit_length.simps[of "numeral k"])

lemmas float_ops = zero_Float_t_def uminus_Float_t_def plus_Float_t_def minus_Float_t_def
  times_Float_t_def less_Float_t_def less_eq_Float_t_def

lemmas float_eval = float_ops signed_value_def signed_mantissa_def round_to_binary32_def
  bit_length_0 bit_length_Suc bit_length_1 bit_length_numeral Let_def

subsection \<open>Rounding yields single-precision values\<close>

lemma bit_length_le_iff: "bit_length n \<le> b \<longleftrightarrow> n < 2 ^ b"
proof (induction n arbitrary: b rule: bit_length.induct)
  case (1 n)
  show ?case
  proof (cases "n = 0")
    case True
    then show ?thesis by (simp add: bit_length_0)
  next
    case False
    then have u: "bit_length n = Suc (bit_length (n div 2))"
      by (subst bit_length.simps) simp
    show ?thesis
    proof (cases b)
      case 0
      with False u show ?thesis by simp
    next
      case (Suc c)
      have "n div 2 < 2 ^ c \<longleftrightarrow> n < 2 ^ Suc c" by auto
      with 1[OF False, of c] u Suc show ?thesis by simp
    qed
  qed
qed

lemma bit_length_half: "0 < n \<Longrightarrow> bit_length n = Suc (bit_length (n div 2))"
  by (subst bit_length.simps) simp

lemma round_representable: "representable (round_to_binary32 s m e)"
proof (cases "m = 0")
  case True
  then show ?thesis by (simp add: round_to_binary32_def)
next
  case False
  define k where "k = max (int (bit_length m) - 24) (- 149 - e)"
  show ?thesis
  proof (cases "k \<le> 0")
    case True
    then have "bit_length m \<le> 24" "- 149 \<le> e" unfolding k_def by simp_all
    with False True show ?thesis
      unfolding round_to_binary32_def Let_def k_def[symmetric] by simp
  next
    case pos: False
    define q where "q = m div 2 ^ nat k"
    define r where "r = m mod 2 ^ nat k"
    define q' where "q' = (if r > 2 ^ (nat k - 1) \<or> (r = 2 ^ (nat k - 1) \<and> odd q) then q + 1 else q)"
    have "int (bit_length m) \<le> 24 + k" unfolding k_def by simp
    with pos have "bit_length m \<le> 24 + nat k" by simp
    then have "m < 2 ^ (24 + nat k)" by (simp add: bit_length_le_iff)
    then have "m < 2 ^ 24 * 2 ^ nat k" by (simp add: power_add)
    then have "q < 2 ^ 24" unfolding q_def by (simp add: less_mult_imp_div_less)
    then have q'le: "q' \<le> 2 ^ 24" unfolding q'_def by simp
    have ek: "- 149 \<le> e + k" unfolding k_def by simp
    have res: "round_to_binary32 s m e =
      (if q' = 0 then Finite s 0 0
       else if int (bit_length q') + (e + k) > 128 then Inf s
       else if bit_length q' > 24 then Finite s (q' div 2) (e + k + 1)
       else Finite s q' (e + k))"
      using False pos
      unfolding round_to_binary32_def Let_def k_def[symmetric] q_def[symmetric]
        r_def[symmetric] q'_def[symmetric]
      by simp
    show ?thesis
    proof (cases "q' = 0")
      case True
      with res show ?thesis by simp
    next
      case nz: False
      then have h: "bit_length q' = Suc (bit_length (q' div 2))"
        by (simp add: bit_length_half)
      from q'le have "q' div 2 < 2 ^ 24" by simp
      then have "bit_length (q' div 2) \<le> 24" by (simp add: bit_length_le_iff)
      with res nz h ek show ?thesis by auto
    qed
  qed
qed

lemma float_add_representable: "representable (float_add x y)"
  by (cases x; cases y) (simp_all add: Let_def round_representable)

lemma float_mul_representable: "representable (float_mul x y)"
  by (cases x; cases y) (simp_all add: round_representable)

subsection \<open>Order\<close>

lemma signed_value_nonneg: "0 \<le> signed_value s m e \<longleftrightarrow> (s \<longrightarrow> m = 0)"
proof -
  have "0 < (2::real) powi e" by simp
  then have "\<not> (2::real) powi e \<le> 0" by linarith
  then show ?thesis
    by (auto simp: signed_value_def zero_le_mult_iff mult_le_0_iff)
qed

lemma signed_value_pos: "0 < signed_value s m e \<longleftrightarrow> \<not> s \<and> 0 < m"
proof -
  have "0 < (2::real) powi e" by simp
  then have "\<not> (2::real) powi e < 0" by linarith
  then show ?thesis
    by (auto simp: signed_value_def zero_less_mult_iff mult_less_0_iff)
qed

lemma signed_value_zero: "signed_value s 0 e = 0"
  by (simp add: signed_value_def)

lemma float_not_less_iff:
  fixes x y :: Float_t
  assumes "x \<noteq> NaN" "y \<noteq> NaN"
  shows "\<not> x < y \<longleftrightarrow> y \<le> x"
  using assms unfolding float_ops by (cases x; cases y) auto

lemma float_le_not_less:
  fixes x y :: Float_t
  assumes "x \<le> y"
  shows "\<not> y < x"
  using assms unfolding float_ops by (cases x; cases y) auto

lemma float_less_le_trans:
  fixes x y z :: Float_t
  assumes "x < y" "y \<le> z"
  shows "x < z"
  using assms unfolding float_ops by (cases x; cases y; cases z) auto

lemma float_less_not_NaN:
  fixes x y :: Float_t
  assumes "x < y"
  shows "x \<noteq> NaN \<and> y \<noteq> NaN"
  using assms unfolding float_ops by (cases x; cases y) auto

lemma float_NaN_compare:
  fixes x :: Float_t
  shows "\<not> NaN < x" "\<not> x < NaN" "\<not> NaN \<le> x" "\<not> x \<le> NaN"
  unfolding float_ops by (cases x; simp)+

subsection \<open>Rounding keeps the sign\<close>

lemma round_zero: "round_to_binary32 s 0 e = Finite s 0 0"
  by (simp add: round_to_binary32_def)

lemma round_cases:
  "round_to_binary32 s m e = Inf s \<or> (\<exists>q f. round_to_binary32 s m e = Finite s q f)"
  unfolding round_to_binary32_def Let_def by (simp only: split: if_split) blast

lemma float_mul_nonneg:
  fixes x y :: Float_t
  assumes "0 \<le> x" "0 < y" "x * y \<noteq> NaN"
  shows "0 \<le> x * y"
proof (cases x)
  case NaN
  with assms(1) show ?thesis by (simp add: float_ops)
next
  case (Inf s)
  with assms(1) have s: "\<not> s" by (simp add: float_ops)
  show ?thesis
  proof (cases y)
    case NaN
    with assms(2) show ?thesis by (simp add: float_ops)
  next
    case i: (Inf t)
    with assms(2) have "\<not> t" by (simp add: float_ops)
    with s Inf i show ?thesis by (simp add: float_ops)
  next
    case (Finite t n f)
    with assms(2) have "\<not> t \<and> 0 < n"
      by (simp add: float_ops signed_value_zero signed_value_pos)
    with s Inf Finite show ?thesis by (simp add: float_ops)
  qed
next
  case (Finite s m e)
  with assms(1) have sm: "s \<longrightarrow> m = 0"
    by (simp add: float_ops signed_value_zero signed_value_nonneg)
  show ?thesis
  proof (cases y)
    case NaN
    with assms(2) show ?thesis by (simp add: float_ops)
  next
    case i: (Inf t)
    with assms(2) have t: "\<not> t" by (simp add: float_ops)
    from assms(3) Finite i have "m \<noteq> 0" by (auto simp: float_ops split: if_splits)
    with sm t Finite i show ?thesis by (simp add: float_ops)
  next
    case f: (Finite t n f)
    with assms(2) have t: "\<not> t \<and> 0 < n"
      by (simp add: float_ops signed_value_zero signed_value_pos)
    have p: "x * y = round_to_binary32 s (m * n) (e + f)"
      using Finite f t by (simp add: float_ops)
    show ?thesis
    proof (cases s)
      case True
      with sm have "m = 0" by simp
      with p show ?thesis
        by (simp add: round_zero float_ops signed_value_zero)
    next
      case False
      with round_cases[of False "m * n" "e + f"] p
      have "x * y = Inf False \<or> (\<exists>q g. x * y = Finite False q g)" by simp
      then show ?thesis
        by (auto simp: float_ops signed_value_zero signed_value_nonneg)
    qed
  qed
qed

lemma negative_below_product:
  fixes c x y :: Float_t
  assumes "c < 0" "0 \<le> x" "0 < y" "x * y \<noteq> NaN"
  shows "c < x * y"
  using float_less_le_trans[OF assms(1) float_mul_nonneg[OF assms(2,3,4)]] .

section \<open>Properties of the signal filter\<close>

subsection \<open>What a call leaves unchanged\<close>

lemma loadNoiseAndPedestal_keeps:
  assumes "loadNoiseAndPedestal fs dd = Inr dd1"
  shows "mFirstTimeBin dd1 = mFirstTimeBin dd" "mLastTimeBin dd1 = mLastTimeBin dd"
    "mADCMin dd1 = mADCMin dd" "mADCMax dd1 = mADCMax dd"
    "mNoiseThreshold dd1 = mNoiseThreshold dd" "mPadMask dd1 = mPadMask dd"
    "mDigits dd1 = mDigits dd" "mInMemoryOnly dd1 = mInMemoryOnly dd"
  using assms
  by (auto simp: loadNoiseAndPedestal_def split: if_splits option.splits)

lemma initInputOutput_keeps:
  assumes "initInputOutput fs dd = Inr dd1"
  shows "mFirstTimeBin dd1 = mFirstTimeBin dd" "mLastTimeBin dd1 = mLastTimeBin dd"
    "mADCMin dd1 = mADCMin dd" "mADCMax dd1 = mADCMax dd"
    "mNoiseThreshold dd1 = mNoiseThreshold dd" "mPadMask dd1 = mPadMask dd"
    "mDigits dd1 = mDigits dd" "mInitialized dd1"
  using assms loadNoiseAndPedestal_keeps[of fs dd]
  by (auto simp: initInputOutput_def setupOutputTree_def split: sum.splits if_splits)

lemma addDigit_keeps:
  assumes "addDigit dd cru q row pad t = Inr dd2"
  shows "mFirstTimeBin dd2 = mFirstTimeBin dd" "mLastTimeBin dd2 = mLastTimeBin dd"
    "mADCMin dd2 = mADCMin dd" "mADCMax dd2 = mADCMax dd"
    "mNoiseThreshold dd2 = mNoiseThreshold dd" "mPadMask dd2 = mPadMask dd"
    "mPedestal dd2 = mPedestal dd" "mNoise dd2 = mNoise dd"
    "sector cru < length (mDigits dd)"
    "mDigits dd2 = (mDigits dd)[sector cru := mDigits dd ! sector cru @
        [\<lparr>getCRU = number cru, getChargeFloat = q, getRow = row, getPad = pad,
          getTimeStamp = t\<rparr>]]"
  using assms by (auto simp: addDigit_def split: if_splits)

lemma prepared_keeps:
  assumes "(if \<not> mInitialized dd then initInputOutput fs dd else Inr dd) = Inr dd1"
  shows "mFirstTimeBin dd1 = mFirstTimeBin dd" "mLastTimeBin dd1 = mLastTimeBin dd"
    "mADCMin dd1 = mADCMin dd" "mADCMax dd1 = mADCMax dd"
    "mNoiseThreshold dd1 = mNoiseThreshold dd" "mPadMask dd1 = mPadMask dd"
    "mDigits dd1 = mDigits dd"
proof -
  have "dd1 = dd \<or> initInputOutput fs dd = Inr dd1"
    using assms by (cases "mInitialized dd") simp_all
  then show "mFirstTimeBin dd1 = mFirstTimeBin dd" "mLastTimeBin dd1 = mLastTimeBin dd"
    "mADCMin dd1 = mADCMin dd" "mADCMax dd1 = mADCMax dd"
    "mNoiseThreshold dd1 = mNoiseThreshold dd" "mPadMask dd1 = mPadMask dd"
    "mDigits dd1 = mDigits dd"
    by (auto dest: initInputOutput_keeps)
qed

lemma spec_evaluate_cong:
  assumes "mFirstTimeBin a = mFirstTimeBin b" "mLastTimeBin a = mLastTimeBin b"
    "mADCMin a = mADCMin b" "mADCMax a = mADCMax b"
    "mNoiseThreshold a = mNoiseThreshold b" "mPadMask a = mPadMask b"
    "mPedestal a = mPedestal b" "mNoise a = mNoise b"
  shows "spec_evaluate a = spec_evaluate b"
  unfolding spec_evaluate_def signalCorr_def pedestal_def noise_def fun_eq_iff
  by (simp only: assms) simp

lemma signalCorr_cong:
  assumes "mPedestal a = mPedestal b"
  shows "signalCorr a = signalCorr b"
  unfolding signalCorr_def pedestal_def fun_eq_iff by (simp only: assms) simp

subsection \<open>The filter follows the decision procedure\<close>

lemma updateCRU_outside:
  assumes "timeBin < mFirstTimeBin dd \<or> timeBin > mLastTimeBin dd"
  shows "updateCRU fs mapper dd cru row pad timeBin signal = Inr (0, RejectTimeWindow, dd)"
  using assms by (simp add: updateCRU_def)

lemma updateCRU_inside:
  assumes "\<not> (timeBin < mFirstTimeBin dd \<or> timeBin > mLastTimeBin dd)"
    and "(if \<not> mInitialized dd then initInputOutput fs dd else Inr dd) = Inr dd1"
  shows "updateCRU fs mapper dd cru row pad timeBin signal =
     (if signalCorr dd1 mapper cru row pad signal < mADCMin dd1
         \<or> signalCorr dd1 mapper cru row pad signal > mADCMax dd1 then
        Inr (0, RejectAmplitude, dd1)
      else if mNoiseThreshold dd1 > 0
         \<and> signalCorr dd1 mapper cru row pad signal
             < noise dd1 mapper cru row pad * mNoiseThreshold dd1 then
        Inr (0, RejectNoise, dd1)
      else if mPadMask dd1 \<noteq> []
         \<and> List.member (mPadMask dd1) (roc cru, sectorRow mapper cru row, pad) then
        Inr (1, MaskedPad, dd1)
      else
        (case addDigit dd1 cru (signalCorr dd1 mapper cru row pad signal)
                (globalRow mapper cru row) pad timeBin of
           Inl e \<Rightarrow> Inl e
         | Inr dd2 \<Rightarrow> Inr (0, Accept, dd2)))"
  using assms unfolding updateCRU_def by (simp only: if_False sum.case)

lemma updateCRU_fatal:
  assumes "\<not> (timeBin < mFirstTimeBin dd \<or> timeBin > mLastTimeBin dd)"
    and "(if \<not> mInitialized dd then initInputOutput fs dd else Inr dd) = Inl e"
  shows "updateCRU fs mapper dd cru row pad timeBin signal = Inl e"
  using assms unfolding updateCRU_def by (simp only: if_False sum.case)

lemma updateCRU_prepared_ex:
  assumes "updateCRU fs mapper dd cru row pad timeBin signal = Inr (r, ex, dd')"
    and "\<not> (timeBin < mFirstTimeBin dd \<or> timeBin > mLastTimeBin dd)"
  shows "\<exists>dd1. (if \<not> mInitialized dd then initInputOutput fs dd else Inr dd) = Inr dd1"
  using assms by (auto simp: updateCRU_def split: sum.splits)

text \<open>
  Whenever \<open>updateCRU\<close> returns: the configuration is as before, the return statement
  taken is the one the decision procedure names (read on the tables the call leaves
  behind, which are those it used), the value returned is 1 for a masked pad and 0
  otherwise, and the digit vectors change on acceptance only, by the one digit appended.
\<close>

lemma updateCRU_Inr:
  assumes "updateCRU fs mapper dd cru row pad timeBin signal = Inr (r, ex, dd')"
  shows "mFirstTimeBin dd' = mFirstTimeBin dd" "mLastTimeBin dd' = mLastTimeBin dd"
    "mADCMin dd' = mADCMin dd" "mADCMax dd' = mADCMax dd"
    "mNoiseThreshold dd' = mNoiseThreshold dd" "mPadMask dd' = mPadMask dd"
    and "ex = spec_evaluate dd' mapper cru row pad timeBin signal"
    and "r = (if ex = MaskedPad then 1 else 0)"
    and "ex \<noteq> Accept \<Longrightarrow> mDigits dd' = mDigits dd"
    and "ex = Accept \<Longrightarrow> sector cru < length (mDigits dd) \<and>
           mDigits dd' = (mDigits dd)[sector cru := mDigits dd ! sector cru @
             [\<lparr>getCRU = number cru,
               getChargeFloat = signalCorr dd' mapper cru row pad signal,
               getRow = globalRow mapper cru row, getPad = pad, getTimeStamp = timeBin\<rparr>]]"
proof -
  let ?upd = "(mDigits dd)[sector cru := mDigits dd ! sector cru @
             [\<lparr>getCRU = number cru,
               getChargeFloat = signalCorr dd' mapper cru row pad signal,
               getRow = globalRow mapper cru row, getPad = pad, getTimeStamp = timeBin\<rparr>]]"
  have all: "mFirstTimeBin dd' = mFirstTimeBin dd \<and> mLastTimeBin dd' = mLastTimeBin dd \<and>
    mADCMin dd' = mADCMin dd \<and> mADCMax dd' = mADCMax dd \<and>
    mNoiseThreshold dd' = mNoiseThreshold dd \<and> mPadMask dd' = mPadMask dd \<and>
    ex = spec_evaluate dd' mapper cru row pad timeBin signal \<and>
    r = (if ex = MaskedPad then 1 else 0) \<and>
    (ex \<noteq> Accept \<longrightarrow> mDigits dd' = mDigits dd) \<and>
    (ex = Accept \<longrightarrow> sector cru < length (mDigits dd) \<and> mDigits dd' = ?upd)"
  proof (cases "timeBin < mFirstTimeBin dd \<or> timeBin > mLastTimeBin dd")
    case True
    from assms[unfolded updateCRU_outside[OF True]]
    have "r = 0" "ex = RejectTimeWindow" "dd' = dd" by simp_all
    with True show ?thesis by (simp add: spec_evaluate_def)
  next
    case False
    from updateCRU_prepared_ex[OF assms False] obtain dd1 where
      p: "(if \<not> mInitialized dd then initInputOutput fs dd else Inr dd) = Inr dd1" ..
    note k = prepared_keeps[OF p]
    define A where "A \<longleftrightarrow> signalCorr dd1 mapper cru row pad signal < mADCMin dd1
         \<or> signalCorr dd1 mapper cru row pad signal > mADCMax dd1"
    define N where "N \<longleftrightarrow> mNoiseThreshold dd1 > 0
         \<and> signalCorr dd1 mapper cru row pad signal
             < noise dd1 mapper cru row pad * mNoiseThreshold dd1"
    define M where "M \<longleftrightarrow> mPadMask dd1 \<noteq> []
         \<and> List.member (mPadMask dd1) (roc cru, sectorRow mapper cru row, pad)"
    define added where "added = addDigit dd1 cru (signalCorr dd1 mapper cru row pad signal)
                (globalRow mapper cru row) pad timeBin"
    have e1: "spec_evaluate dd1 mapper cru row pad timeBin signal =
       (if A then RejectAmplitude else if N then RejectNoise
        else if M then MaskedPad else Accept)"
      using False k(1,2) unfolding A_def N_def M_def spec_evaluate_def by auto
    have u: "(if A then Inr (0, RejectAmplitude, dd1)
        else if N then Inr (0, RejectNoise, dd1)
        else if M then Inr (1, MaskedPad, dd1)
        else (case added of Inl e \<Rightarrow> Inl e | Inr dd2 \<Rightarrow> Inr (0, Accept, dd2)))
          = Inr (r, ex, dd')"
      using assms unfolding updateCRU_inside[OF False p] A_def N_def M_def added_def .
    have e2: "ex = (if A then RejectAmplitude else if N then RejectNoise
        else if M then MaskedPad else Accept)"
      using u by (auto split: if_splits sum.splits)
    have rv: "r = (if ex = MaskedPad then 1 else 0)"
      using u by (auto split: if_splits sum.splits)
    have d: "(ex \<noteq> Accept \<and> dd' = dd1) \<or> (ex = Accept \<and> added = Inr dd')"
      using u by (auto split: if_splits sum.splits)
    have f: "mFirstTimeBin dd' = mFirstTimeBin dd1 \<and> mLastTimeBin dd' = mLastTimeBin dd1 \<and>
      mADCMin dd' = mADCMin dd1 \<and> mADCMax dd' = mADCMax dd1 \<and>
      mNoiseThreshold dd' = mNoiseThreshold dd1 \<and> mPadMask dd' = mPadMask dd1 \<and>
      mPedestal dd' = mPedestal dd1 \<and> mNoise dd' = mNoise dd1"
      using d addDigit_keeps(1-8)[of dd1 cru _ _ pad timeBin dd'] unfolding added_def
      by blast
    then have se: "spec_evaluate dd' = spec_evaluate dd1"
      by (intro spec_evaluate_cong) simp_all
    from f have sc: "signalCorr dd' = signalCorr dd1"
      by (intro signalCorr_cong) simp
    have dg: "(ex \<noteq> Accept \<longrightarrow> mDigits dd' = mDigits dd) \<and>
      (ex = Accept \<longrightarrow> sector cru < length (mDigits dd) \<and> mDigits dd' = ?upd)"
      using d addDigit_keeps(9,10)[of dd1 cru _ _ pad timeBin dd'] k(7)
      unfolding added_def sc by auto
    from f k(1-6) e1 e2 se rv dg show ?thesis by simp
  qed
  from all show "mFirstTimeBin dd' = mFirstTimeBin dd" "mLastTimeBin dd' = mLastTimeBin dd"
    "mADCMin dd' = mADCMin dd" "mADCMax dd' = mADCMax dd"
    "mNoiseThreshold dd' = mNoiseThreshold dd" "mPadMask dd' = mPadMask dd"
    "ex = spec_evaluate dd' mapper cru row pad timeBin signal"
    "r = (if ex = MaskedPad then 1 else 0)"
    by simp_all
  from all show "ex \<noteq> Accept \<Longrightarrow> mDigits dd' = mDigits dd" by simp
  from all show "ex = Accept \<Longrightarrow> sector cru < length (mDigits dd) \<and> mDigits dd' = ?upd"
    by simp
qed

subsection \<open>Acceptance, rejection and the value returned\<close>

lemmas example_defs = example_param_def fresh_dump_def example_fs_def empty_fs_def
  example_mapper_def example_cru_def example_dump_def ready_dump_def init_def
  example_pedestals_def example_noise_def noisy_dump_def masked_dump_def accepted_digit_def
  nan_digit_def unbounded_dump_def negative_digit_def fine_pedestals_def fine_dump_def
  rounded_digit_def neighbour_digit_def

lemmas filter_defs = updateCRU_def initInputOutput_def loadNoiseAndPedestal_def
  setupOutputTree_def signalCorr_def pedestal_def noise_def sectorRow_def globalRow_def
  addDigit_def

text \<open>
  Claim C6. A sample whose time bin lies below \<open>mFirstTimeBin\<close> or above \<open>mLastTimeBin\<close> is
  rejected: \<open>updateCRU\<close> returns 0 through its first \<^verbatim>\<open>return\<close> and hands the object back
  exactly as it was. No digit is appended, and nothing is initialised or looked up: the
  equation holds for every signal, every file system (also one on which initialisation
  would be fatal), every pedestal and noise table and every pad mask.
\<close>

theorem updateCRU_rejects_outside_time_window:
  assumes "timeBin < mFirstTimeBin dd \<or> timeBin > mLastTimeBin dd"
  shows "updateCRU fs mapper dd cru row pad timeBin signal = Inr (0, RejectTimeWindow, dd)"
  using assms by (rule updateCRU_outside)

theorem updateCRU_rejects_outside_time_window_witness:
  "(1001 < mFirstTimeBin example_dump \<or> 1001 > mLastTimeBin example_dump) \<and>
   updateCRU empty_fs example_mapper example_dump example_cru 3 7 1001 (Finite False 12 0)
     = Inr (0, RejectTimeWindow, example_dump) \<and>
   updateCRU empty_fs example_mapper example_dump example_cru 3 7 1000 (Finite False 12 0)
     = Inl (CouldNotOpenPedestalFile ''pedestals.root'')"
proof -
  have h: "1001 < mFirstTimeBin example_dump \<or> 1001 > mLastTimeBin example_dump"
    by (simp add: example_defs)
  have "updateCRU empty_fs example_mapper example_dump example_cru 3 7 1000 (Finite False 12 0)
     = Inl (CouldNotOpenPedestalFile ''pedestals.root'')"
    by (simp add: example_defs filter_defs)
  with h updateCRU_rejects_outside_time_window[OF h] show ?thesis by simp
qed

text \<open>
  Claim C1, as the code has it. Whenever a call of \<open>updateCRU\<close> accepts (equivalently,
  changes the digit vectors), exactly one digit is appended to the vector of the sector
  of the CRU. Its charge is the single-precision difference of signal and pedestal that
  line 76 computes, where the pedestal is the entry of the table at readout chamber,
  sector row and pad, and 0 when no table is loaded. Neither comparison of line 78 holds
  of it: it is not below \<open>mADCMin\<close> and not above \<open>mADCMax\<close>. When the charge and a bound
  are numbers, the charge is on the right side of that bound; a charge that is NaN is
  accepted as well, and is within no bounds.
\<close>

theorem accepted_digit_charge_within_adc_window:
  assumes "updateCRU fs mapper dd cru row pad timeBin signal = Inr (r, ex, dd')"
    and "ex = Accept \<or> mDigits dd' \<noteq> mDigits dd"
  shows "ex = Accept \<and> sector cru < length (mDigits dd) \<and>
     mDigits dd' = (mDigits dd)[sector cru := mDigits dd ! sector cru @
        [\<lparr>getCRU = number cru,
          getChargeFloat = signal - pedestal dd' mapper cru row pad,
          getRow = globalRow mapper cru row, getPad = pad, getTimeStamp = timeBin\<rparr>]] \<and>
     mDigits dd' \<noteq> mDigits dd \<and>
     \<not> signal - pedestal dd' mapper cru row pad < mADCMin dd \<and>
     \<not> signal - pedestal dd' mapper cru row pad > mADCMax dd \<and>
     (signal - pedestal dd' mapper cru row pad \<noteq> NaN \<and> mADCMin dd \<noteq> NaN \<longrightarrow>
        mADCMin dd \<le> signal - pedestal dd' mapper cru row pad) \<and>
     (signal - pedestal dd' mapper cru row pad \<noteq> NaN \<and> mADCMax dd \<noteq> NaN \<longrightarrow>
        signal - pedestal dd' mapper cru row pad \<le> mADCMax dd) \<and>
     pedestal dd' mapper cru row pad =
       (case mPedestal dd' of
          None \<Rightarrow> 0
        | Some p \<Rightarrow>
            p (roc cru)
              (row + getGlobalRowOffset mapper (region cru)
                 - (if rocType cru = OROC then 1 else 0) * getNumberOfRowsROC mapper 0)
              pad) \<and>
     globalRow mapper cru row = row + getGlobalRowOffset mapper (region cru)"
proof -
  define c where "c = signal - pedestal dd' mapper cru row pad"
  note f = updateCRU_Inr[OF assms(1)]
  from assms(2) f(9) have acc: "ex = Accept" by blast
  from f(10)[OF acc] have len: "sector cru < length (mDigits dd)"
    and upd: "mDigits dd' = (mDigits dd)[sector cru := mDigits dd ! sector cru @
        [\<lparr>getCRU = number cru, getChargeFloat = c,
          getRow = globalRow mapper cru row, getPad = pad, getTimeStamp = timeBin\<rparr>]]"
    by (simp_all add: signalCorr_def c_def)
  have "length (mDigits dd' ! sector cru) = Suc (length (mDigits dd ! sector cru))"
    unfolding upd using len by simp
  then have neq: "mDigits dd' \<noteq> mDigits dd" by auto
  from acc f(7) have "spec_evaluate dd' mapper cru row pad timeBin signal = Accept" by simp
  then have "\<not> (signalCorr dd' mapper cru row pad signal < mADCMin dd'
        \<or> signalCorr dd' mapper cru row pad signal > mADCMax dd')"
    by (auto simp: spec_evaluate_def split: if_splits)
  then have lo: "\<not> c < mADCMin dd" and hi: "\<not> c > mADCMax dd"
    using f(3,4) by (simp_all add: signalCorr_def c_def)
  from lo float_not_less_iff[of c "mADCMin dd"]
  have lo': "c \<noteq> NaN \<and> mADCMin dd \<noteq> NaN \<longrightarrow> mADCMin dd \<le> c"
    by blast
  from hi float_not_less_iff[of "mADCMax dd" c]
  have hi': "c \<noteq> NaN \<and> mADCMax dd \<noteq> NaN \<longrightarrow> c \<le> mADCMax dd"
    by blast
  have z: "pedestal dd' mapper cru row pad =
       (case mPedestal dd' of
          None \<Rightarrow> 0
        | Some p \<Rightarrow>
            p (roc cru)
              (row + getGlobalRowOffset mapper (region cru)
                 - (if rocType cru = OROC then 1 else 0) * getNumberOfRowsROC mapper 0)
              pad)"
    unfolding pedestal_def sectorRow_def globalRow_def by (rule refl)
  have g: "globalRow mapper cru row = row + getGlobalRowOffset mapper (region cru)"
    by (simp add: globalRow_def)
  from acc len upd neq lo hi lo' hi' z g show ?thesis unfolding c_def by blast
qed

theorem accepted_digit_charge_within_adc_window_witness:
  "updateCRU example_fs example_mapper example_dump example_cru 3 7 5 (Finite False 12 0)
     = Inr (0, Accept, ready_dump\<lparr>mDigits := [[], [accepted_digit], []]\<rparr>) \<and>
   getChargeFloat accepted_digit
     = Finite False 12 0 - pedestal (ready_dump\<lparr>mDigits := [[], [accepted_digit], []]\<rparr>)
              example_mapper example_cru 3 7 \<and>
   getChargeFloat accepted_digit \<noteq> NaN \<and>
   mADCMin example_dump \<noteq> NaN \<and> mADCMax example_dump \<noteq> NaN \<and>
   mADCMin example_dump \<le> getChargeFloat accepted_digit \<and>
   getChargeFloat accepted_digit \<le> mADCMax example_dump"
proof -
  have h: "updateCRU example_fs example_mapper example_dump example_cru 3 7 5 (Finite False 12 0)
     = Inr (0, Accept, ready_dump\<lparr>mDigits := [[], [accepted_digit], []]\<rparr>)"
    by (simp add: example_defs filter_defs float_eval)
  have v: "Finite False 12 0 - pedestal (ready_dump\<lparr>mDigits := [[], [accepted_digit], []]\<rparr>)
              example_mapper example_cru 3 7 = getChargeFloat accepted_digit"
    by (simp add: example_defs filter_defs float_eval)
  have n: "getChargeFloat accepted_digit \<noteq> NaN" "mADCMin example_dump \<noteq> NaN"
    "mADCMax example_dump \<noteq> NaN"
    by (simp_all add: example_defs)
  note t = accepted_digit_charge_within_adc_window[OF h, unfolded v]
  from t n have b: "mADCMin example_dump \<le> getChargeFloat accepted_digit"
    "getChargeFloat accepted_digit \<le> mADCMax example_dump" by blast+
  from h v[symmetric] n b show ?thesis by blast
qed

text \<open>
  The bound fails for a signal that is not a number: the sample passes both comparisons
  of line 78 and the noise test, and its digit is stored with a charge that is neither
  at least \<open>mADCMin\<close> nor at most \<open>mADCMax\<close>.
\<close>

theorem accepted_digit_charge_counterexample:
  "updateCRU example_fs example_mapper example_dump example_cru 3 7 5 NaN
     = Inr (0, Accept, ready_dump\<lparr>mDigits := [[], [nan_digit], []]\<rparr>) \<and>
   getChargeFloat nan_digit = NaN \<and>
   \<not> mADCMin example_dump \<le> getChargeFloat nan_digit \<and>
   \<not> getChargeFloat nan_digit \<le> mADCMax example_dump"
  by (simp add: example_defs filter_defs float_eval)

text \<open>
  The subtraction rounds. With a pedestal just below 1 and \<open>mADCMax\<close> at 1024, the signal
  1025 is accepted with the charge 1024, although the exact difference exceeds 1024.
\<close>

lemma rounded_charge_example:
  "updateCRU example_fs example_mapper fine_dump example_cru 3 7 5 (Finite False 1025 0)
     = Inr (0, Accept, fine_dump\<lparr>mDigits := [[], [rounded_digit], []]\<rparr>) \<and>
   representable (Finite False 1025 0) \<and> representable (Finite False 16777215 (- 24)) \<and>
   signed_value False 8388608 (- 13) = 1024 \<and>
   signed_value False 1025 0 - signed_value False 16777215 (- 24) > 1024"
  by (simp add: example_defs filter_defs float_eval)

text \<open>
  Claim C7, as the code has it. For a sample inside the time window that neither
  comparison of line 78 rejects, \<open>updateCRU\<close> leaves through the noise rejection exactly
  when the noise threshold is above 0 and the corrected charge is below the
  single-precision product of noise and threshold. With a threshold that is not above 0
  (0 or less, or NaN) this never happens, whatever the noise table holds. With a
  threshold above 0, a noise value of at least 0 and a product that is a number (it is
  NaN for noise 0 and an infinite threshold), every negative corrected charge is rejected
  as noise, since no absolute value is taken. A sample rejected as noise returns 0 and
  appends nothing. Noise and pedestal are the entries of their tables at readout chamber,
  sector row and pad, and 0 when the table is not loaded; the corrected charge is the
  single-precision difference of signal and pedestal.
\<close>

theorem noise_rejection_condition:
  assumes "updateCRU fs mapper dd cru row pad timeBin signal = Inr (r, ex, dd')"
    and "mFirstTimeBin dd \<le> timeBin" and "timeBin \<le> mLastTimeBin dd"
    and "\<not> signalCorr dd' mapper cru row pad signal < mADCMin dd"
    and "\<not> signalCorr dd' mapper cru row pad signal > mADCMax dd"
  shows "(ex = RejectNoise \<longleftrightarrow>
            mNoiseThreshold dd > 0 \<and>
            signalCorr dd' mapper cru row pad signal
              < noise dd' mapper cru row pad * mNoiseThreshold dd) \<and>
         (mNoiseThreshold dd \<le> 0 \<longrightarrow> ex \<noteq> RejectNoise) \<and>
         (\<not> mNoiseThreshold dd > 0 \<longrightarrow> ex \<noteq> RejectNoise) \<and>
         (mNoiseThreshold dd > 0 \<and> 0 \<le> noise dd' mapper cru row pad \<and>
            noise dd' mapper cru row pad * mNoiseThreshold dd \<noteq> NaN \<and>
            signalCorr dd' mapper cru row pad signal < 0 \<longrightarrow> ex = RejectNoise) \<and>
         (ex = RejectNoise \<longrightarrow> r = 0 \<and> mDigits dd' = mDigits dd) \<and>
         noise dd' mapper cru row pad =
           (case mNoise dd' of
              None \<Rightarrow> 0
            | Some p \<Rightarrow>
                p (roc cru)
                  (row + getGlobalRowOffset mapper (region cru)
                     - (if rocType cru = OROC then 1 else 0) * getNumberOfRowsROC mapper 0)
                  pad) \<and>
         signalCorr dd' mapper cru row pad signal =
           signal -
             (case mPedestal dd' of
                None \<Rightarrow> 0
              | Some p \<Rightarrow>
                  p (roc cru)
                    (row + getGlobalRowOffset mapper (region cru)
                       - (if rocType cru = OROC then 1 else 0) * getNumberOfRowsROC mapper 0)
                    pad)"
proof -
  note f = updateCRU_Inr[OF assms(1)]
  have iff: "ex = RejectNoise \<longleftrightarrow>
            mNoiseThreshold dd > 0 \<and>
            signalCorr dd' mapper cru row pad signal
              < noise dd' mapper cru row pad * mNoiseThreshold dd"
    unfolding f(7) spec_evaluate_def using assms(2-5) f(1-5) by auto
  from iff have off: "\<not> mNoiseThreshold dd > 0 \<longrightarrow> ex \<noteq> RejectNoise" by blast
  from off float_le_not_less[of "mNoiseThreshold dd" 0]
  have le: "mNoiseThreshold dd \<le> 0 \<longrightarrow> ex \<noteq> RejectNoise" by blast
  have neg: "mNoiseThreshold dd > 0 \<and> 0 \<le> noise dd' mapper cru row pad \<and>
            noise dd' mapper cru row pad * mNoiseThreshold dd \<noteq> NaN \<and>
            signalCorr dd' mapper cru row pad signal < 0 \<longrightarrow> ex = RejectNoise"
    using iff negative_below_product[of "signalCorr dd' mapper cru row pad signal"
        "noise dd' mapper cru row pad" "mNoiseThreshold dd"]
    by blast
  have out: "ex = RejectNoise \<longrightarrow> r = 0 \<and> mDigits dd' = mDigits dd"
    using f(8,9) by simp
  have nz: "noise dd' mapper cru row pad =
           (case mNoise dd' of
              None \<Rightarrow> 0
            | Some p \<Rightarrow>
                p (roc cru)
                  (row + getGlobalRowOffset mapper (region cru)
                     - (if rocType cru = OROC then 1 else 0) * getNumberOfRowsROC mapper 0)
                  pad)"
    unfolding noise_def sectorRow_def globalRow_def by (rule refl)
  have sc: "signalCorr dd' mapper cru row pad signal =
           signal -
             (case mPedestal dd' of
                None \<Rightarrow> 0
              | Some p \<Rightarrow>
                  p (roc cru)
                    (row + getGlobalRowOffset mapper (region cru)
                       - (if rocType cru = OROC then 1 else 0) * getNumberOfRowsROC mapper 0)
                    pad)"
    unfolding signalCorr_def pedestal_def sectorRow_def globalRow_def by (rule refl)
  from iff le off neg out nz sc show ?thesis by blast
qed

text \<open>
  The example of the specification (signal 12, pedestal 2, noise 4, threshold 3: the
  charge 10 is below 12), and a negative charge (signal 1, charge -1).
\<close>

theorem noise_rejection_condition_witness:
  "updateCRU example_fs example_mapper noisy_dump example_cru 3 7 5 (Finite False 12 0)
     = Inr (0, RejectNoise, noisy_dump) \<and>
   updateCRU example_fs example_mapper noisy_dump example_cru 3 7 5 (Finite False 1 0)
     = Inr (0, RejectNoise, noisy_dump) \<and>
   mFirstTimeBin noisy_dump \<le> 5 \<and> 5 \<le> mLastTimeBin noisy_dump \<and>
   signalCorr noisy_dump example_mapper example_cru 3 7 (Finite False 12 0)
     = Finite False 10 0 \<and>
   signalCorr noisy_dump example_mapper example_cru 3 7 (Finite False 1 0) = Finite True 1 0 \<and>
   \<not> Finite False 10 0 < mADCMin noisy_dump \<and> \<not> Finite False 10 0 > mADCMax noisy_dump \<and>
   \<not> Finite True 1 0 < mADCMin noisy_dump \<and> \<not> Finite True 1 0 > mADCMax noisy_dump \<and>
   mNoiseThreshold noisy_dump > 0 \<and>
   noise noisy_dump example_mapper example_cru 3 7 = Finite False 4 0 \<and>
   0 \<le> noise noisy_dump example_mapper example_cru 3 7 \<and>
   noise noisy_dump example_mapper example_cru 3 7 * mNoiseThreshold noisy_dump
     = Finite False 12 0 \<and>
   Finite False 10 0 < Finite False 12 0 \<and>
   Finite True 1 0 < (0::Float_t) \<and>
   mDigits noisy_dump = [[], [], []]"
proof -
  have h: "updateCRU example_fs example_mapper noisy_dump example_cru 3 7 5 (Finite False 12 0)
     = Inr (0, RejectNoise, noisy_dump)"
    "updateCRU example_fs example_mapper noisy_dump example_cru 3 7 5 (Finite False 1 0)
     = Inr (0, RejectNoise, noisy_dump)"
    by (simp_all add: example_defs filter_defs float_eval)
  have t: "mFirstTimeBin noisy_dump \<le> 5" "5 \<le> mLastTimeBin noisy_dump"
    by (simp_all add: example_defs)
  have s: "signalCorr noisy_dump example_mapper example_cru 3 7 (Finite False 12 0)
      = Finite False 10 0"
    "signalCorr noisy_dump example_mapper example_cru 3 7 (Finite False 1 0)
      = Finite True 1 0"
    by (simp_all add: example_defs filter_defs float_eval)
  have a: "\<not> signalCorr noisy_dump example_mapper example_cru 3 7 (Finite False 12 0)
        < mADCMin noisy_dump"
    "\<not> signalCorr noisy_dump example_mapper example_cru 3 7 (Finite False 12 0)
        > mADCMax noisy_dump"
    unfolding s by (simp_all add: example_defs float_eval)
  have b: "\<not> signalCorr noisy_dump example_mapper example_cru 3 7 (Finite False 1 0)
        < mADCMin noisy_dump"
    "\<not> signalCorr noisy_dump example_mapper example_cru 3 7 (Finite False 1 0)
        > mADCMax noisy_dump"
    unfolding s by (simp_all add: example_defs float_eval)
  have n: "mNoiseThreshold noisy_dump > 0"
    "noise noisy_dump example_mapper example_cru 3 7 = Finite False 4 0"
    "0 \<le> noise noisy_dump example_mapper example_cru 3 7"
    "noise noisy_dump example_mapper example_cru 3 7 * mNoiseThreshold noisy_dump
       = Finite False 12 0"
    "Finite False 10 0 < Finite False 12 0"
    "Finite True 1 0 < (0::Float_t)"
    by (simp_all add: example_defs filter_defs float_eval)
  have d: "mDigits noisy_dump = [[], [], []]"
    by (simp add: example_defs)
  note th1 = noise_rejection_condition[OF h(1) t a]
  note th2 = noise_rejection_condition[OF h(2) t b]
  from th1 th2 h t s a[unfolded s] b[unfolded s] n d show ?thesis by blast
qed

text \<open>
  The last part of the claim fails for noise 0 and an infinite threshold: their product
  is NaN, the comparison of line 82 is false, and the negative charge is accepted.
\<close>

theorem noise_rejection_counterexample:
  "updateCRU example_fs example_mapper unbounded_dump example_cru 3 7 5 (Finite False 1 0)
     = Inr (0, Accept, unbounded_dump\<lparr>mDigits := [[], [negative_digit], []]\<rparr>) \<and>
   signalCorr unbounded_dump example_mapper example_cru 3 7 (Finite False 1 0)
     = Finite True 1 0 \<and>
   \<not> Finite True 1 0 < mADCMin unbounded_dump \<and>
   \<not> Finite True 1 0 > mADCMax unbounded_dump \<and>
   mNoiseThreshold unbounded_dump > 0 \<and>
   0 \<le> noise unbounded_dump example_mapper example_cru 3 7 \<and>
   Finite True 1 0 < (0::Float_t)"
  by (simp add: example_defs filter_defs float_eval)

text \<open>
  Claim C8. \<open>updateCRU\<close> leaves through the masked-pad rejection exactly when the sample
  passes the time-window check, is rejected by neither comparison of the amplitude check
  nor by the noise check, and the triple of readout chamber, sector row and pad is in the
  pad mask. The mask is therefore consulted last. A masked sample returns 1 and appends
  no digit, and an empty mask never rejects.
\<close>

theorem masked_pad_rejected_last:
  assumes "updateCRU fs mapper dd cru row pad timeBin signal = Inr (r, ex, dd')"
  shows "(ex = MaskedPad \<longleftrightarrow>
            mFirstTimeBin dd \<le> timeBin \<and> timeBin \<le> mLastTimeBin dd \<and>
            \<not> signalCorr dd' mapper cru row pad signal < mADCMin dd \<and>
            \<not> signalCorr dd' mapper cru row pad signal > mADCMax dd \<and>
            \<not> (mNoiseThreshold dd > 0 \<and>
               signalCorr dd' mapper cru row pad signal
                 < noise dd' mapper cru row pad * mNoiseThreshold dd) \<and>
            (roc cru, sectorRow mapper cru row, pad) \<in> set (mPadMask dd)) \<and>
         (ex = MaskedPad \<longrightarrow> r = 1 \<and> mDigits dd' = mDigits dd) \<and>
         (mPadMask dd = [] \<longrightarrow> ex \<noteq> MaskedPad) \<and>
         sectorRow mapper cru row =
           row + getGlobalRowOffset mapper (region cru)
             - (if rocType cru = OROC then 1 else 0) * getNumberOfRowsROC mapper 0"
proof -
  note f = updateCRU_Inr[OF assms(1)]
  have iff: "ex = MaskedPad \<longleftrightarrow>
            mFirstTimeBin dd \<le> timeBin \<and> timeBin \<le> mLastTimeBin dd \<and>
            \<not> signalCorr dd' mapper cru row pad signal < mADCMin dd \<and>
            \<not> signalCorr dd' mapper cru row pad signal > mADCMax dd \<and>
            \<not> (mNoiseThreshold dd > 0 \<and>
               signalCorr dd' mapper cru row pad signal
                 < noise dd' mapper cru row pad * mNoiseThreshold dd) \<and>
            (roc cru, sectorRow mapper cru row, pad) \<in> set (mPadMask dd)"
    unfolding f(7) spec_evaluate_def using f(1-6) by auto
  have out: "ex = MaskedPad \<longrightarrow> r = 1 \<and> mDigits dd' = mDigits dd"
    using f(8,9) by simp
  from iff have e: "mPadMask dd = [] \<longrightarrow> ex \<noteq> MaskedPad" by auto
  have p: "sectorRow mapper cru row =
           row + getGlobalRowOffset mapper (region cru)
             - (if rocType cru = OROC then 1 else 0) * getNumberOfRowsROC mapper 0"
    unfolding sectorRow_def globalRow_def by (rule refl)
  from iff out e p show ?thesis by blast
qed

theorem masked_pad_rejected_last_witness:
  "updateCRU example_fs example_mapper masked_dump example_cru 3 7 5 (Finite False 12 0)
     = Inr (1, MaskedPad, masked_dump) \<and>
   mPadMask masked_dump = [(37, 20, 7)] \<and>
   roc example_cru = 37 \<and> sectorRow example_mapper example_cru 3 = 20 \<and>
   \<not> signalCorr masked_dump example_mapper example_cru 3 7 (Finite False 12 0)
       < mADCMin masked_dump \<and>
   \<not> signalCorr masked_dump example_mapper example_cru 3 7 (Finite False 12 0)
       > mADCMax masked_dump \<and>
   updateCRU example_fs example_mapper masked_dump example_cru 3 7 5 (Finite False 2000 0)
     = Inr (0, RejectAmplitude, masked_dump) \<and>
   updateCRU example_fs example_mapper masked_dump example_cru 3 8 5 (Finite False 112 0)
     = Inr (0, Accept, masked_dump\<lparr>mDigits := [[], [neighbour_digit], []]\<rparr>) \<and>
   updateCRU example_fs example_mapper ready_dump example_cru 3 7 5 (Finite False 12 0)
     = Inr (0, Accept, ready_dump\<lparr>mDigits := [[], [accepted_digit], []]\<rparr>) \<and>
   mPadMask ready_dump = []"
proof -
  have h: "updateCRU example_fs example_mapper masked_dump example_cru 3 7 5 (Finite False 12 0)
     = Inr (1, MaskedPad, masked_dump)"
    by (simp add: example_defs filter_defs float_eval)
  have k: "updateCRU example_fs example_mapper masked_dump example_cru 3 7 5
       (Finite False 2000 0)
     = Inr (0, RejectAmplitude, masked_dump)"
    by (simp add: example_defs filter_defs float_eval)
  have m: "updateCRU example_fs example_mapper masked_dump example_cru 3 8 5
       (Finite False 112 0)
     = Inr (0, Accept, masked_dump\<lparr>mDigits := [[], [neighbour_digit], []]\<rparr>)"
    by (simp add: example_defs filter_defs float_eval)
  have g: "updateCRU example_fs example_mapper ready_dump example_cru 3 7 5 (Finite False 12 0)
     = Inr (0, Accept, ready_dump\<lparr>mDigits := [[], [accepted_digit], []]\<rparr>)"
    by (simp add: example_defs filter_defs float_eval)
  have e: "mPadMask ready_dump = []" "mPadMask masked_dump = [(37, 20, 7)]"
    "roc example_cru = 37"
    by (simp_all add: example_defs)
  have p: "sectorRow example_mapper example_cru 3 = 20"
    by (simp add: example_defs filter_defs)
  from masked_pad_rejected_last[OF h] masked_pad_rejected_last[OF g] h k m g e p
  show ?thesis by blast
qed

text \<open>
  Claim C10. The value \<open>updateCRU\<close> returns is 1 exactly when the sample passes the
  time-window check, is rejected by neither comparison of the amplitude check nor by the
  noise check, and its triple of readout chamber, sector row and pad is found in a pad
  mask that is not empty. In every other case it is 0: on acceptance as well as on
  rejection by time, amplitude or noise, which the value returned therefore does not
  tell apart.
\<close>

theorem updateCRU_return_value:
  assumes "updateCRU fs mapper dd cru row pad timeBin signal = Inr (r, ex, dd')"
  shows "(r = 1 \<longleftrightarrow>
            mFirstTimeBin dd \<le> timeBin \<and> timeBin \<le> mLastTimeBin dd \<and>
            \<not> signalCorr dd' mapper cru row pad signal < mADCMin dd \<and>
            \<not> signalCorr dd' mapper cru row pad signal > mADCMax dd \<and>
            \<not> (mNoiseThreshold dd > 0 \<and>
               signalCorr dd' mapper cru row pad signal
                 < noise dd' mapper cru row pad * mNoiseThreshold dd) \<and>
            mPadMask dd \<noteq> [] \<and>
            (roc cru, sectorRow mapper cru row, pad) \<in> set (mPadMask dd)) \<and>
         (r \<noteq> 1 \<longrightarrow> r = 0) \<and>
         (ex = Accept \<or> ex = RejectTimeWindow \<or> ex = RejectAmplitude \<or> ex = RejectNoise
            \<longrightarrow> r = 0) \<and>
         sectorRow mapper cru row =
           row + getGlobalRowOffset mapper (region cru)
             - (if rocType cru = OROC then 1 else 0) * getNumberOfRowsROC mapper 0"
proof -
  note f = updateCRU_Inr[OF assms(1)]
  have r: "r = 1 \<longleftrightarrow> ex = MaskedPad" using f(8) by simp
  have iff: "ex = MaskedPad \<longleftrightarrow>
            mFirstTimeBin dd \<le> timeBin \<and> timeBin \<le> mLastTimeBin dd \<and>
            \<not> signalCorr dd' mapper cru row pad signal < mADCMin dd \<and>
            \<not> signalCorr dd' mapper cru row pad signal > mADCMax dd \<and>
            \<not> (mNoiseThreshold dd > 0 \<and>
               signalCorr dd' mapper cru row pad signal
                 < noise dd' mapper cru row pad * mNoiseThreshold dd) \<and>
            mPadMask dd \<noteq> [] \<and>
            (roc cru, sectorRow mapper cru row, pad) \<in> set (mPadMask dd)"
    unfolding f(7) spec_evaluate_def using f(1-6) by auto
  have z: "r \<noteq> 1 \<longrightarrow> r = 0" using f(8) by simp
  have o: "ex = Accept \<or> ex = RejectTimeWindow \<or> ex = RejectAmplitude \<or> ex = RejectNoise
            \<longrightarrow> r = 0"
    using f(8) by auto
  have p: "sectorRow mapper cru row =
           row + getGlobalRowOffset mapper (region cru)
             - (if rocType cru = OROC then 1 else 0) * getNumberOfRowsROC mapper 0"
    unfolding sectorRow_def globalRow_def by (rule refl)
  from r iff z o p show ?thesis by blast
qed

theorem updateCRU_return_value_witness:
  "updateCRU example_fs example_mapper masked_dump example_cru 3 7 5 (Finite False 12 0)
     = Inr (1, MaskedPad, masked_dump) \<and>
   updateCRU example_fs example_mapper ready_dump example_cru 3 7 5 (Finite False 12 0)
     = Inr (0, Accept, ready_dump\<lparr>mDigits := [[], [accepted_digit], []]\<rparr>) \<and>
   updateCRU example_fs example_mapper ready_dump example_cru 3 7 5 (Finite False 2000 0)
     = Inr (0, RejectAmplitude, ready_dump) \<and>
   updateCRU example_fs example_mapper masked_dump example_cru 3 7 5 NaN
     = Inr (1, MaskedPad, masked_dump) \<and>
   mPadMask masked_dump \<noteq> [] \<and>
   (roc example_cru, sectorRow example_mapper example_cru 3, 7) \<in> set (mPadMask masked_dump) \<and>
   (37, 20, 7) \<in> set (mPadMask masked_dump) \<and>
   sectorRow example_mapper example_cru 3 = 20"
proof -
  have h: "updateCRU example_fs example_mapper masked_dump example_cru 3 7 5 (Finite False 12 0)
     = Inr (1, MaskedPad, masked_dump)"
    by (simp add: example_defs filter_defs float_eval)
  have g: "updateCRU example_fs example_mapper ready_dump example_cru 3 7 5 (Finite False 12 0)
     = Inr (0, Accept, ready_dump\<lparr>mDigits := [[], [accepted_digit], []]\<rparr>)"
    by (simp add: example_defs filter_defs float_eval)
  have k: "updateCRU example_fs example_mapper ready_dump example_cru 3 7 5 (Finite False 2000 0)
     = Inr (0, RejectAmplitude, ready_dump)"
    by (simp add: example_defs filter_defs float_eval)
  have n: "updateCRU example_fs example_mapper masked_dump example_cru 3 7 5 NaN
     = Inr (1, MaskedPad, masked_dump)"
    by (simp add: example_defs filter_defs float_eval)
  have p: "(37, 20, 7) \<in> set (mPadMask masked_dump)"
    "sectorRow example_mapper example_cru 3 = 20"
    by (simp_all add: example_defs filter_defs)
  from updateCRU_return_value[OF h] h g k n p show ?thesis by blast
qed

text \<open>
  Claim C9. Loading the pedestal and noise tables treats its two failures differently.
  With an empty file name it logs one warning, touches no table and initialisation goes
  on: tables that were absent stay absent. With a file name that is not empty and a file
  that cannot be opened (none found, not open, or zombie) it ends fatally, and so do the
  initialisation and the first call of \<open>updateCRU\<close> inside the time window. An absent
  pedestal table yields pedestal 0 and an absent noise table yields noise 0.
\<close>

theorem pedestal_loading_soft_and_fatal:
  "(mPedestalAndNoiseFile dd = [] \<longrightarrow>
      loadNoiseAndPedestal fs dd
        = Inr (dd\<lparr>logOut := logOut dd @ [NoPedestalAndNoiseFileNameSet]\<rparr>) \<and>
      (\<exists>dd1. initInputOutput fs dd = Inr dd1 \<and> mInitialized dd1 \<and>
             mPedestal dd1 = mPedestal dd \<and> mNoise dd1 = mNoise dd \<and>
             logOut dd1 = logOut dd @ [NoPedestalAndNoiseFileNameSet])) \<and>
   (mPedestalAndNoiseFile dd \<noteq> [] \<and>
    (case fs (mPedestalAndNoiseFile dd) of
       None \<Rightarrow> True
     | Some f \<Rightarrow> \<not> IsOpen f \<or> IsZombie f) \<longrightarrow>
      loadNoiseAndPedestal fs dd = Inl (CouldNotOpenPedestalFile (mPedestalAndNoiseFile dd)) \<and>
      initInputOutput fs dd = Inl (CouldNotOpenPedestalFile (mPedestalAndNoiseFile dd)) \<and>
      (\<not> mInitialized dd \<and> mFirstTimeBin dd \<le> timeBin \<and> timeBin \<le> mLastTimeBin dd \<longrightarrow>
         updateCRU fs mapper dd cru row pad timeBin signal
           = Inl (CouldNotOpenPedestalFile (mPedestalAndNoiseFile dd)))) \<and>
   (mPedestal dd = None \<longrightarrow> pedestal dd mapper cru row pad = 0) \<and>
   (mNoise dd = None \<longrightarrow> noise dd mapper cru row pad = 0)"
proof (intro conjI impI)
  assume e: "mPedestalAndNoiseFile dd = []"
  then show l: "loadNoiseAndPedestal fs dd
        = Inr (dd\<lparr>logOut := logOut dd @ [NoPedestalAndNoiseFileNameSet]\<rparr>)"
    by (simp add: loadNoiseAndPedestal_def)
  show "\<exists>dd1. initInputOutput fs dd = Inr dd1 \<and> mInitialized dd1 \<and>
             mPedestal dd1 = mPedestal dd \<and> mNoise dd1 = mNoise dd \<and>
             logOut dd1 = logOut dd @ [NoPedestalAndNoiseFileNameSet]"
    by (simp add: initInputOutput_def l setupOutputTree_def)
next
  assume a: "mPedestalAndNoiseFile dd \<noteq> [] \<and>
    (case fs (mPedestalAndNoiseFile dd) of
       None \<Rightarrow> True
     | Some f \<Rightarrow> \<not> IsOpen f \<or> IsZombie f)"
  then show l: "loadNoiseAndPedestal fs dd
      = Inl (CouldNotOpenPedestalFile (mPedestalAndNoiseFile dd))"
    by (auto simp: loadNoiseAndPedestal_def split: option.splits)
  then show i: "initInputOutput fs dd
      = Inl (CouldNotOpenPedestalFile (mPedestalAndNoiseFile dd))"
    by (simp add: initInputOutput_def)
  assume "\<not> mInitialized dd \<and> mFirstTimeBin dd \<le> timeBin \<and> timeBin \<le> mLastTimeBin dd"
  with i show "updateCRU fs mapper dd cru row pad timeBin signal
           = Inl (CouldNotOpenPedestalFile (mPedestalAndNoiseFile dd))"
    by (intro updateCRU_fatal) auto
next
  assume "mPedestal dd = None"
  then show "pedestal dd mapper cru row pad = 0" by (simp add: pedestal_def)
next
  assume "mNoise dd = None"
  then show "noise dd mapper cru row pad = 0" by (simp add: noise_def)
qed

theorem pedestal_loading_soft_and_fatal_witness:
  "mPedestalAndNoiseFile fresh_dump = [] \<and>
   loadNoiseAndPedestal empty_fs fresh_dump
     = Inr (fresh_dump\<lparr>logOut := [NoPedestalAndNoiseFileNameSet]\<rparr>) \<and>
   mPedestal fresh_dump = None \<and> mNoise fresh_dump = None \<and>
   pedestal fresh_dump example_mapper example_cru 3 7 = 0 \<and>
   noise fresh_dump example_mapper example_cru 3 7 = 0 \<and>
   mPedestalAndNoiseFile example_dump \<noteq> [] \<and>
   empty_fs (mPedestalAndNoiseFile example_dump) = None \<and>
   \<not> mInitialized example_dump \<and>
   loadNoiseAndPedestal empty_fs example_dump
     = Inl (CouldNotOpenPedestalFile ''pedestals.root'') \<and>
   updateCRU empty_fs example_mapper example_dump example_cru 3 7 5 (Finite False 12 0)
     = Inl (CouldNotOpenPedestalFile ''pedestals.root'')"
proof -
  have a: "mPedestalAndNoiseFile fresh_dump = []" "mPedestal fresh_dump = None"
    "mNoise fresh_dump = None" "logOut fresh_dump = []"
    by (simp_all add: example_defs)
  have b: "mPedestalAndNoiseFile example_dump = ''pedestals.root''"
    "empty_fs (mPedestalAndNoiseFile example_dump) = None"
    "\<not> mInitialized example_dump"
    "mFirstTimeBin example_dump \<le> 5" "5 \<le> mLastTimeBin example_dump"
    by (simp_all add: example_defs)
  from pedestal_loading_soft_and_fatal
         [of fresh_dump empty_fs 5 example_mapper example_cru 3 7 "Finite False 12 0"]
       pedestal_loading_soft_and_fatal
         [of example_dump empty_fs 5 example_mapper example_cru 3 7 "Finite False 12 0"]
       a b
  show ?thesis by simp
qed

section \<open>Properties of sorting and duplicate removal\<close>

subsection \<open>The comparison and the contract of the library sort\<close>

lemma digit_less_key: "digit_less a b \<longleftrightarrow> digit_key a < digit_key b"
  by (auto simp: digit_less_def digit_key_def less_prod_def)

lemma isEqual_key: "isEqual a b \<longleftrightarrow> digit_key a = digit_key b"
  by (auto simp: isEqual_def digit_key_def)

lemma strict_weak_order_digit_less: "strict_weak_order digit_less"
  unfolding strict_weak_order_def digit_less_key by auto

lemma strict_weak_order_flip:
  assumes "strict_weak_order lt"
  shows "strict_weak_order (\<lambda>a b. lt b a)"
  using assms unfolding strict_weak_order_def by blast

lemma swo_asym:
  assumes "strict_weak_order lt" "lt a b"
  shows "\<not> lt b a"
  using assms unfolding strict_weak_order_def by blast

lemma swo_negative_transitive:
  assumes "strict_weak_order lt" "\<not> lt a b" "\<not> lt b c"
  shows "\<not> lt a c"
proof
  assume ac: "lt a c"
  from assms(1) have tr: "\<And>x y z. lt x y \<Longrightarrow> lt y z \<Longrightarrow> lt x z"
    and eq: "\<And>x y z. \<not> lt x y \<Longrightarrow> \<not> lt y x \<Longrightarrow> \<not> lt y z \<Longrightarrow> \<not> lt z y \<Longrightarrow> \<not> lt x z"
    unfolding strict_weak_order_def by blast+
  have "\<not> lt b a" using tr[of b a c] ac assms(3) by blast
  moreover have "\<not> lt c b" using tr[of a c b] ac assms(2) by blast
  ultimately show False using eq[of a b c] assms(2,3) ac by blast
qed

lemma mset_insert_by: "mset (insert_by lt x ys) = add_mset x (mset ys)"
  by (induction ys) simp_all

lemma set_insert_by: "set (insert_by lt x ys) = insert x (set ys)"
  by (induction ys) auto

lemma sorted_insert_by:
  assumes "strict_weak_order lt" "sorted_wrt (\<lambda>a b. \<not> lt b a) ys"
  shows "sorted_wrt (\<lambda>a b. \<not> lt b a) (insert_by lt x ys)"
  using assms(2)
proof (induction ys)
  case Nil
  then show ?case by simp
next
  case (Cons y ys)
  show ?case
  proof (cases "lt y x")
    case True
    with Cons swo_asym[OF assms(1) True] show ?thesis
      by (simp add: set_insert_by)
  next
    case False
    have "\<not> lt z x" if "z \<in> set ys" for z
    proof -
      from Cons.prems that have "\<not> lt z y" by simp
      from swo_negative_transitive[OF assms(1) this False] show ?thesis .
    qed
    with False Cons.prems show ?thesis by simp
  qed
qed

lemma mset_insertion_sort: "mset (insertion_sort lt xs) = mset xs"
  unfolding insertion_sort_def by (induction xs) (simp_all add: mset_insert_by)

lemma sorted_insertion_sort:
  assumes "strict_weak_order lt"
  shows "sorted_wrt (\<lambda>a b. \<not> lt b a) (insertion_sort lt xs)"
  unfolding insertion_sort_def
  by (induction xs) (simp_all add: sorted_insert_by[OF assms])

lemma insertion_sort_contract: "std_sort_contract insertion_sort"
  unfolding std_sort_contract_def
  by (simp add: mset_insertion_sort sorted_insertion_sort)

lemma ties_reversing_sort_contract: "std_sort_contract ties_reversing_sort"
  unfolding std_sort_contract_def ties_reversing_sort_def
proof (intro allI impI conjI)
  fix lt :: "'a \<Rightarrow> 'a \<Rightarrow> bool" and xs
  assume s: "strict_weak_order lt"
  show "mset (rev (insertion_sort (\<lambda>a b. lt b a) xs)) = mset xs"
    by (simp add: mset_insertion_sort)
  from sorted_insertion_sort[OF strict_weak_order_flip[OF s], of xs]
  show "sorted_wrt (\<lambda>a b. \<not> lt b a) (rev (insertion_sort (\<lambda>a b. lt b a) xs))"
    by (simp add: sorted_wrt_rev)
qed

subsection \<open>Sorted permutations\<close>

lemma sorted_by_key:
  "sorted_wrt (\<lambda>a b. \<not> digit_less b a) xs \<longleftrightarrow> sorted (map digit_key xs)"
  by (simp add: sorted_map digit_less_key not_less)

lemma strictly_sorted_by_key:
  "sorted_wrt digit_less xs \<longleftrightarrow> sorted (map digit_key xs) \<and> distinct (map digit_key xs)"
proof -
  have "digit_less = (\<lambda>a b. digit_key a < digit_key b)"
    by (simp add: fun_eq_iff digit_less_key)
  then have "sorted_wrt digit_less xs \<longleftrightarrow> sorted_wrt (<) (map digit_key xs)"
    by (simp add: sorted_wrt_map)
  then show ?thesis by (simp add: strict_sorted_iff)
qed

lemma contract_sorted:
  assumes "std_sort_contract srt"
  shows "mset (srt digit_less xs) = mset xs"
    and "sorted (map digit_key (srt digit_less xs))"
  using assms strict_weak_order_digit_less
  unfolding std_sort_contract_def sorted_by_key[symmetric] by blast+

lemma sorted_permutation_keys:
  assumes "mset ys = mset xs" "sorted (map digit_key ys)" "sorted (map digit_key xs)"
  shows "map digit_key ys = map digit_key xs"
proof -
  from assms(1) have "mset (map digit_key ys) = mset (map digit_key xs)" by simp
  from properties_for_sort[OF this assms(2)] have "sort (map digit_key xs) = map digit_key ys" .
  with sorted_sort_id[OF assms(3)] show ?thesis by simp
qed

lemma sort_keeps_keys_of_sorted:
  assumes "std_sort_contract srt" "sorted (map digit_key xs)"
  shows "map digit_key (srt digit_less xs) = map digit_key xs"
  using sorted_permutation_keys[OF contract_sorted[OF assms(1)] assms(2)] .

lemma sort_keeps_strictly_sorted:
  assumes "std_sort_contract srt" "sorted_wrt digit_less xs"
  shows "srt digit_less xs = xs"
proof -
  from assms(2) have s: "sorted (map digit_key xs)" and d: "distinct (map digit_key xs)"
    by (simp_all add: strictly_sorted_by_key)
  from contract_sorted(1)[OF assms(1), of xs] have "set (srt digit_less xs) = set xs"
    by (rule mset_eq_setD)
  moreover from d have "inj_on digit_key (set xs)" by (simp add: distinct_map)
  ultimately have "inj_on digit_key (set (srt digit_less xs) \<union> set xs)" by simp
  from inj_on_map_eq_map[OF this] sort_keeps_keys_of_sorted[OF assms(1) s]
  show ?thesis by simp
qed

subsection \<open>The adjacency scan\<close>

lemma std_unique_Cons: "std_unique p (x # ys) = x # tl (std_unique p (x # ys))"
  by (induction ys) simp_all

lemma set_std_unique: "set (std_unique p xs) \<subseteq> set xs"
  by (induction p xs rule: std_unique.induct) auto

lemma length_std_unique: "length (std_unique p xs) \<le> length xs"
  by (induction p xs rule: std_unique.induct) auto

lemma std_unique_same_key:
  assumes "isEqual x y"
  shows "std_unique isEqual (x # ys) = x # tl (std_unique isEqual (y # ys))"
proof (induction ys)
  case Nil
  show ?case by simp
next
  case (Cons z zs)
  from assms have "isEqual x z \<longleftrightarrow> isEqual y z" by (simp add: isEqual_key)
  with Cons show ?case by simp
qed

lemma std_unique_step:
  "std_unique isEqual (x # z # zs) =
     x # (if isEqual x z then tl (std_unique isEqual (z # zs)) else std_unique isEqual (z # zs))"
  using std_unique_same_key[of x z zs] by simp

lemma std_unique_strictly_sorted:
  assumes "sorted (map digit_key xs)"
  shows "sorted_wrt digit_less (std_unique isEqual xs)"
  using assms
proof (induction xs)
  case Nil
  show ?case by simp
next
  case (Cons x ys)
  show ?case
  proof (cases ys)
    case Nil
    then show ?thesis by simp
  next
    case ys: (Cons z zs)
    define U where "U = std_unique isEqual (z # zs)"
    have U: "U = z # tl U"
      unfolding U_def by (rule std_unique_Cons)
    from Cons.prems ys have s: "sorted (map digit_key (z # zs))"
      and xz: "digit_key x \<le> digit_key z" by simp_all
    from Cons.IH s ys have sU: "sorted_wrt digit_less U" by (simp add: U_def)
    show ?thesis
    proof (cases "isEqual x z")
      case True
      from sU U have t: "sorted_wrt digit_less (tl U)"
        and above: "\<forall>w\<in>set (tl U). digit_less z w"
        by (metis sorted_wrt.simps(2))+
      from True above have "\<forall>w\<in>set (tl U). digit_less x w"
        by (simp only: digit_less_key isEqual_key)
      with t True show ?thesis
        unfolding ys std_unique_step U_def[symmetric] by simp
    next
      case False
      from xz False[unfolded isEqual_key] have lt: "digit_key x < digit_key z"
        by (rule le_neq_trans)
      have "digit_less x w" if "w \<in> set U" for w
      proof -
        from that set_std_unique[of isEqual "z # zs"] have "w = z \<or> w \<in> set zs"
          unfolding U_def by auto
        moreover from s have "\<forall>v\<in>set zs. digit_key z \<le> digit_key v" by simp
        ultimately have "digit_key z \<le> digit_key w" by blast
        with lt have "digit_key x < digit_key w" by (rule less_le_trans)
        then show ?thesis by (simp only: digit_less_key)
      qed
      with sU False show ?thesis
        unfolding ys std_unique_step U_def[symmetric] by simp
    qed
  qed
qed

lemma std_unique_id:
  assumes "sorted_wrt digit_less xs"
  shows "std_unique isEqual xs = xs"
  using assms
proof (induction xs)
  case Nil
  show ?case by simp
next
  case (Cons x ys)
  show ?case
  proof (cases ys)
    case Nil
    then show ?thesis by simp
  next
    case ys: (Cons z zs)
    from Cons.prems ys have "digit_key x < digit_key z" by (simp add: digit_less_key)
    then have ne: "\<not> isEqual x z" by (simp add: isEqual_key)
    from Cons.prems Cons.IH ys have "std_unique isEqual (z # zs) = z # zs" by simp
    with ne show ?thesis unfolding ys std_unique_step by simp
  qed
qed

lemma count_loop_eq:
  "count_loop prev ds n = n + (length (prev # ds) - length (std_unique isEqual (prev # ds)))"
proof (induction ds arbitrary: prev n)
  case Nil
  show ?case by simp
next
  case (Cons d ds)
  define L where "L = length (std_unique isEqual (d # ds))"
  have le: "L \<le> Suc (length ds)"
    unfolding L_def using length_std_unique[of isEqual "d # ds"] by simp
  have pos: "0 < L"
    unfolding L_def by (subst std_unique_Cons) simp
  have lt: "length (tl (std_unique isEqual (d # ds))) = L - 1"
    unfolding L_def by simp
  have "count_loop prev (d # ds) n
      = n + (if isEqual prev d then 1 else 0) + (Suc (length ds) - L)"
    by (simp add: Cons.IH L_def)
  also have "\<dots> = n + (length (prev # d # ds) - length (std_unique isEqual (prev # d # ds)))"
    unfolding std_unique_step using le pos by (simp add: lt L_def[symmetric])
  finally show ?case .
qed

subsection \<open>Runs of identical keys\<close>

lemma runs_Cons: "runs (d # ds) \<noteq> [] \<and> hd (runs (d # ds)) \<noteq> [] \<and> hd (hd (runs (d # ds))) = d"
  by (simp split: list.splits)

lemma runs_no_empty: "[] \<notin> set (runs xs)"
  by (induction xs) (auto split: list.splits)

lemma concat_runs: "concat (runs xs) = xs"
  by (induction xs) (auto split: list.splits)

lemma runs_same_key:
  assumes "r \<in> set (runs xs)" "d \<in> set r"
  shows "digit_key d = digit_key (hd r)"
  using assms
proof (induction xs arbitrary: r d)
  case Nil
  then show ?case by simp
next
  case (Cons x xs)
  show ?case
  proof (cases "runs xs")
    case Nil
    with Cons.prems show ?thesis by simp
  next
    case (Cons q qs)
    note rq = this
    have q: "\<And>e. e \<in> set q \<Longrightarrow> digit_key e = digit_key (hd q)"
      using Cons.IH[of q] rq by simp
    have qs: "\<And>s e. s \<in> set qs \<Longrightarrow> e \<in> set s \<Longrightarrow> digit_key e = digit_key (hd s)"
      using Cons.IH rq by simp
    show ?thesis
    proof (cases "digit_key x = digit_key (hd q)")
      case True
      with Cons.prems rq have "r = x # q \<or> r \<in> set qs" by simp
      then show ?thesis
      proof
        assume "r = x # q"
        with Cons.prems(2) True q show ?thesis by auto
      next
        assume "r \<in> set qs"
        with qs Cons.prems(2) show ?thesis by simp
      qed
    next
      case False
      with Cons.prems rq have "r = [x] \<or> r = q \<or> r \<in> set qs" by auto
      with Cons.prems(2) q qs show ?thesis by auto
    qed
  qed
qed

lemma heads_runs_step:
  "map hd (runs (x # z # zs)) =
     x # (if digit_key x = digit_key z then tl (map hd (runs (z # zs)))
          else map hd (runs (z # zs)))"
proof -
  obtain r rs where rr: "runs (z # zs) = r # rs"
    using runs_Cons[of z zs] by (cases "runs (z # zs)") auto
  with runs_Cons[of z zs] have h: "hd r = z" by simp
  have "runs (x # z # zs) =
     (if digit_key x = digit_key (hd r) then (x # r) # rs else [x] # r # rs)"
    using rr by (simp del: runs.simps add: runs.simps(2)[of x "z # zs"])
  with h rr show ?thesis by simp
qed

lemma std_unique_runs: "std_unique isEqual xs = map hd (runs xs)"
proof (induction xs)
  case Nil
  show ?case by simp
next
  case (Cons x ys)
  show ?case
  proof (cases ys)
    case Nil
    then show ?thesis by simp
  next
    case (Cons z zs)
    with Cons.IH have "std_unique isEqual (z # zs) = map hd (runs (z # zs))" by simp
    then show ?thesis
      unfolding Cons std_unique_step heads_runs_step by (simp add: isEqual_key)
  qed
qed

lemma sum_runs_aux:
  assumes "[] \<notin> set rs"
  shows "(\<Sum>r\<leftarrow>rs. length r - 1) + length rs = length (concat rs)"
  using assms
proof (induction rs)
  case Nil
  show ?case by simp
next
  case (Cons r rs)
  then have "length r = Suc (length r - 1)" by (cases r) simp_all
  with Cons show ?case by simp
qed

lemma removed_is_sum_over_runs:
  "length xs - length (std_unique isEqual xs) = (\<Sum>r\<leftarrow>runs xs. length r - 1)"
  using sum_runs_aux[OF runs_no_empty[of xs]]
  by (simp add: std_unique_runs concat_runs)

subsection \<open>One sector\<close>

lemma checkDuplicates_sector_remove:
  "checkDuplicates_sector True xs
     = (std_unique isEqual xs, length xs - length (std_unique isEqual xs))"
  by (cases xs) (simp_all add: checkDuplicates_sector_def)

lemma checkDuplicates_sector_report:
  "checkDuplicates_sector False xs = (xs, length xs - length (std_unique isEqual xs))"
  by (cases xs) (simp_all add: checkDuplicates_sector_def count_loop_eq del: std_unique.simps)

lemma checkDuplicates_sector_count:
  "snd (checkDuplicates_sector rm xs) = length xs - length (std_unique isEqual xs)"
  by (cases rm) (simp_all add: checkDuplicates_sector_remove checkDuplicates_sector_report)

lemma duplicate_warnings_zero:
  assumes "\<forall>n\<in>set ns. n = 0"
  shows "duplicate_warnings rm k ns = []"
  using assms by (induction ns arbitrary: k) simp_all

lemma duplicate_warnings_mem:
  "DuplicateDigits rm' n i \<in> set (duplicate_warnings rm k ns) \<longleftrightarrow>
     rm' = rm \<and> (\<exists>j<length ns. i = k + j \<and> ns ! j = n) \<and> n \<noteq> 0"
proof (induction ns arbitrary: k)
  case Nil
  show ?case by simp
next
  case (Cons m ms)
  show ?case by (auto simp: Cons.IH less_Suc_eq_0_disj)
qed

subsection \<open>All sectors\<close>

lemma mDigits_sortDigits:
  "mDigits (sortDigits srt dd) = map (srt digit_less) (mDigits dd)"
  by (simp add: sortDigits_def)

lemma mDigits_checkDuplicates_remove:
  "mDigits (checkDuplicates srt True dd)
     = map (\<lambda>xs. std_unique isEqual (srt digit_less xs)) (mDigits dd)"
  by (simp add: checkDuplicates_def Let_def mDigits_sortDigits checkDuplicates_sector_remove
      comp_def)

lemma mDigits_checkDuplicates_report:
  "mDigits (checkDuplicates srt False dd) = map (srt digit_less) (mDigits dd)"
  by (simp add: checkDuplicates_def Let_def mDigits_sortDigits checkDuplicates_sector_report
      comp_def)

lemma nDuplicates_eq:
  "nDuplicates srt rm dd
     = map (\<lambda>xs. length (srt digit_less xs) - length (std_unique isEqual (srt digit_less xs)))
         (mDigits dd)"
  by (simp add: nDuplicates_def mDigits_sortDigits checkDuplicates_sector_count comp_def)

lemma logOut_checkDuplicates:
  "logOut (checkDuplicates srt rm dd)
     = logOut dd @ duplicate_warnings rm 0 (nDuplicates srt rm dd)"
  by (simp add: checkDuplicates_def Let_def sortDigits_def)

lemma checkDuplicates_strictly_sorted:
  assumes "std_sort_contract srt" "p \<in> set (mDigits (checkDuplicates srt True dd))"
  shows "sorted_wrt digit_less p"
proof -
  from assms(2) obtain xs where "p = std_unique isEqual (srt digit_less xs)"
    unfolding mDigits_checkDuplicates_remove by auto
  with std_unique_strictly_sorted[OF contract_sorted(2)[OF assms(1)]] show ?thesis by simp
qed

lemma checkDuplicates_fixed:
  assumes "std_sort_contract srt" "\<forall>p\<in>set (mDigits dd). sorted_wrt digit_less p"
  shows "checkDuplicates srt rm dd = dd"
    and "nDuplicates srt rm dd = replicate (length (mDigits dd)) 0"
proof -
  have s: "srt digit_less p = p" if "p \<in> set (mDigits dd)" for p
    using sort_keeps_strictly_sorted[OF assms(1)] assms(2) that by blast
  have u: "std_unique isEqual p = p" if "p \<in> set (mDigits dd)" for p
    using std_unique_id assms(2) that by blast
  have sd: "sortDigits srt dd = dd"
    unfolding sortDigits_def using s by (simp add: map_idI)
  have c: "checkDuplicates_sector rm p = (p, 0)" if "p \<in> set (mDigits dd)" for p
    using u[OF that]
    by (cases rm) (simp_all add: checkDuplicates_sector_remove checkDuplicates_sector_report)
  have n: "nDuplicates srt rm dd = map (\<lambda>p. 0) (mDigits dd)"
    unfolding nDuplicates_def sd using c by simp
  then show "nDuplicates srt rm dd = replicate (length (mDigits dd)) 0"
    by (simp add: map_replicate_const)
  have w: "duplicate_warnings rm 0 (nDuplicates srt rm dd) = []"
    unfolding n by (rule duplicate_warnings_zero) simp
  have m: "map (\<lambda>digits. fst (checkDuplicates_sector rm digits)) (mDigits dd) = mDigits dd"
    using c by (simp add: map_idI)
  show "checkDuplicates srt rm dd = dd"
    unfolding checkDuplicates_def Let_def sd w m by simp
qed

text \<open>
  Claim C4. Removing duplicates is idempotent. After \<open>checkDuplicates\<close> with
  \<open>removeDuplicates = true\<close>, a second call, with either policy and with any sort that
  meets the contract of \<^verbatim>\<open>std::sort\<close>, counts zero duplicates in every sector, removes
  nothing and logs nothing: it returns the object as it received it.
\<close>

theorem checkDuplicates_remove_idempotent:
  assumes "std_sort_contract srt" and "std_sort_contract srt'"
  shows "nDuplicates srt' rm (checkDuplicates srt True dd)
           = replicate (length (mDigits dd)) 0 \<and>
         checkDuplicates srt' rm (checkDuplicates srt True dd) = checkDuplicates srt True dd"
proof -
  have "\<forall>p\<in>set (mDigits (checkDuplicates srt True dd)). sorted_wrt digit_less p"
    using checkDuplicates_strictly_sorted[OF assms(1)] by blast
  from checkDuplicates_fixed[OF assms(2) this, of rm] show ?thesis
    by (simp add: mDigits_checkDuplicates_remove)
qed

lemmas sort_defs = insertion_sort_def ties_reversing_sort_def digit_less_def isEqual_def
  digit_a_def digit_b_def digit_c_def

lemma deduplicated_example:
  "checkDuplicates insertion_sort True filled_dump
     = ready_dump\<lparr>mDigits := [[], [digit_b, digit_a], []],
                  logOut := [DuplicateDigits True 1 1]\<rparr>"
  by (simp add: checkDuplicates_def nDuplicates_def sortDigits_def Let_def
      checkDuplicates_sector_def filled_dump_def ready_dump_def example_dump_def init_def
      fresh_dump_def example_param_def sort_defs)

theorem checkDuplicates_remove_idempotent_witness:
  "std_sort_contract (insertion_sort :: Digit sorter) \<and>
   std_sort_contract (ties_reversing_sort :: Digit sorter) \<and>
   mDigits (checkDuplicates insertion_sort True filled_dump) = [[], [digit_b, digit_a], []] \<and>
   nDuplicates ties_reversing_sort False (checkDuplicates insertion_sort True filled_dump)
     = [0, 0, 0] \<and>
   checkDuplicates ties_reversing_sort False (checkDuplicates insertion_sort True filled_dump)
     = checkDuplicates insertion_sort True filled_dump"
proof -
  have l: "length (mDigits filled_dump) = 3"
    by (simp add: filled_dump_def)
  have r: "replicate 3 (0::nat) = [0, 0, 0]"
    by (simp add: numeral_3_eq_3)
  have d: "mDigits (checkDuplicates insertion_sort True filled_dump)
      = [[], [digit_b, digit_a], []]"
    by (simp add: deduplicated_example)
  from checkDuplicates_remove_idempotent
         [OF insertion_sort_contract ties_reversing_sort_contract, of False filled_dump]
       insertion_sort_contract[where ?'a = Digit] ties_reversing_sort_contract[where ?'a = Digit]
       l r d
  show ?thesis by simp
qed

lemmas dump_defs = filled_dump_def tied_dump_def ready_dump_def example_dump_def init_def
  fresh_dump_def example_param_def

lemma nDuplicates_nth:
  assumes "iSec < length (mDigits dd)"
  shows "nDuplicates srt rm dd ! iSec
     = length (srt digit_less (mDigits dd ! iSec))
         - length (std_unique isEqual (srt digit_less (mDigits dd ! iSec)))"
  using assms by (simp add: nDuplicates_eq)

text \<open>
  Claim C5. \<open>checkDuplicates\<close> sorts first: \<open>S\<close> below is the sorted vector of a sector, a
  permutation of the stored one in key order. \<open>runs S\<close> splits it into its maximal runs of
  adjacent entries with identical key: the runs concatenate to \<open>S\<close>, none is empty, the
  entries of a run share their key, and the keys of successive runs increase strictly.
  With \<open>removeDuplicates = true\<close> the sector is left with the first entry of every run,
  and the count of the sector is the sum over the runs of their length minus one, which
  is the number of entries removed. With \<open>removeDuplicates = false\<close> the sector is left as
  \<open>S\<close>, so with the same digits as before, and the count is the same number. In both
  modes the count is reported by one warning per sector, logged exactly when the count
  is not zero.
\<close>

theorem checkDuplicates_collapses_runs:
  assumes "std_sort_contract srt" and "iSec < length (mDigits dd)"
    and "S = srt digit_less (mDigits dd ! iSec)"
  shows "mset S = mset (mDigits dd ! iSec) \<and>
         sorted (map digit_key S) \<and>
         concat (runs S) = S \<and>
         (\<forall>r\<in>set (runs S). r \<noteq> [] \<and> (\<forall>d\<in>set r. digit_key d = digit_key (hd r))) \<and>
         sorted_wrt digit_less (map hd (runs S)) \<and>
         mDigits (checkDuplicates srt True dd) ! iSec = map hd (runs S) \<and>
         nDuplicates srt True dd ! iSec = (\<Sum>r\<leftarrow>runs S. length r - 1) \<and>
         nDuplicates srt True dd ! iSec
             + length (mDigits (checkDuplicates srt True dd) ! iSec)
           = length (mDigits dd ! iSec) \<and>
         mDigits (checkDuplicates srt False dd) ! iSec = S \<and>
         nDuplicates srt False dd ! iSec = (\<Sum>r\<leftarrow>runs S. length r - 1) \<and>
         logOut (checkDuplicates srt rm dd)
           = logOut dd @ duplicate_warnings rm 0 (nDuplicates srt rm dd) \<and>
         (DuplicateDigits rm n iSec \<in> set (duplicate_warnings rm 0 (nDuplicates srt rm dd))
            \<longleftrightarrow> nDuplicates srt rm dd ! iSec = n \<and> n \<noteq> 0)"
proof -
  have ms: "mset S = mset (mDigits dd ! iSec)"
    and so: "sorted (map digit_key S)"
    unfolding assms(3) using contract_sorted[OF assms(1)] by simp_all
  have len: "length S = length (mDigits dd ! iSec)"
    using ms by (rule mset_eq_length)
  have cc: "concat (runs S) = S" by (rule concat_runs)
  have rk: "\<forall>r\<in>set (runs S). r \<noteq> [] \<and> (\<forall>d\<in>set r. digit_key d = digit_key (hd r))"
    using runs_no_empty[of S] runs_same_key[of _ S] by blast
  have st: "sorted_wrt digit_less (map hd (runs S))"
    using std_unique_strictly_sorted[OF so] by (simp only: std_unique_runs)
  have rem: "mDigits (checkDuplicates srt True dd) ! iSec = map hd (runs S)"
    using assms(2) by (simp add: mDigits_checkDuplicates_remove assms(3) std_unique_runs)
  have cnt: "nDuplicates srt rm' dd ! iSec = (\<Sum>r\<leftarrow>runs S. length r - 1)" for rm'
    unfolding nDuplicates_nth[OF assms(2)] assms(3)[symmetric]
    by (rule removed_is_sum_over_runs)
  have "length (map hd (runs S)) \<le> length S"
    using length_std_unique[of isEqual S] by (simp only: std_unique_runs)
  then have tot: "nDuplicates srt True dd ! iSec
             + length (mDigits (checkDuplicates srt True dd) ! iSec)
           = length (mDigits dd ! iSec)"
    unfolding rem nDuplicates_nth[OF assms(2)] assms(3)[symmetric] len[symmetric]
    by (simp add: std_unique_runs)
  have rep: "mDigits (checkDuplicates srt False dd) ! iSec = S"
    using assms(2) by (simp add: mDigits_checkDuplicates_report assms(3))
  have lg: "logOut (checkDuplicates srt rm dd)
           = logOut dd @ duplicate_warnings rm 0 (nDuplicates srt rm dd)"
    by (rule logOut_checkDuplicates)
  have "length (nDuplicates srt rm dd) = length (mDigits dd)"
    by (simp add: nDuplicates_eq)
  with assms(2) have wm:
    "DuplicateDigits rm n iSec \<in> set (duplicate_warnings rm 0 (nDuplicates srt rm dd))
            \<longleftrightarrow> nDuplicates srt rm dd ! iSec = n \<and> n \<noteq> 0"
    by (simp add: duplicate_warnings_mem)
  from ms so cc rk st rem cnt[of True] tot rep cnt[of False] lg wm show ?thesis
    by blast
qed

lemma sorted_example:
  "insertion_sort digit_less [digit_a, digit_b, digit_c] = [digit_b, digit_a, digit_c]"
  by (simp add: sort_defs)

lemma reported_example:
  "checkDuplicates insertion_sort False filled_dump
     = ready_dump\<lparr>mDigits := [[], [digit_b, digit_a, digit_c], []],
                  logOut := [DuplicateDigits False 1 1]\<rparr>"
  by (simp add: checkDuplicates_def nDuplicates_def sortDigits_def Let_def
      checkDuplicates_sector_def dump_defs sort_defs)

theorem checkDuplicates_collapses_runs_witness:
  "std_sort_contract (insertion_sort :: Digit sorter) \<and>
   (1::nat) < length (mDigits filled_dump) \<and>
   mDigits filled_dump ! 1 = [digit_a, digit_b, digit_c] \<and>
   insertion_sort digit_less (mDigits filled_dump ! 1) = [digit_b, digit_a, digit_c] \<and>
   runs [digit_b, digit_a, digit_c] = [[digit_b], [digit_a, digit_c]] \<and>
   mDigits (checkDuplicates insertion_sort True filled_dump) ! 1 = [digit_b, digit_a] \<and>
   nDuplicates insertion_sort True filled_dump ! 1 = 1 \<and>
   mDigits (checkDuplicates insertion_sort False filled_dump) ! 1
     = [digit_b, digit_a, digit_c] \<and>
   nDuplicates insertion_sort False filled_dump ! 1 = 1 \<and>
   logOut (checkDuplicates insertion_sort True filled_dump) = [DuplicateDigits True 1 1] \<and>
   logOut (checkDuplicates insertion_sort False filled_dump) = [DuplicateDigits False 1 1]"
proof -
  have i: "(1::nat) < length (mDigits filled_dump)"
    and p: "mDigits filled_dump ! 1 = [digit_a, digit_b, digit_c]"
    by (simp_all add: filled_dump_def)
  have s: "[digit_b, digit_a, digit_c] = insertion_sort digit_less (mDigits filled_dump ! 1)"
    unfolding p sorted_example by (rule refl)
  have r: "runs [digit_b, digit_a, digit_c] = [[digit_b], [digit_a, digit_c]]"
    by (simp add: digit_key_def digit_a_def digit_b_def digit_c_def)
  have l: "logOut (checkDuplicates insertion_sort True filled_dump)
      = [DuplicateDigits True 1 1]"
    "logOut (checkDuplicates insertion_sort False filled_dump)
      = [DuplicateDigits False 1 1]"
    by (simp_all add: deduplicated_example reported_example)
  note t = checkDuplicates_collapses_runs[OF insertion_sort_contract i s, of True 1]
  from t have "mDigits (checkDuplicates insertion_sort True filled_dump) ! 1
      = map hd (runs [digit_b, digit_a, digit_c])" by blast
  then have kept: "mDigits (checkDuplicates insertion_sort True filled_dump) ! 1
      = [digit_b, digit_a]" unfolding r by simp
  from t have "nDuplicates insertion_sort True filled_dump ! 1
      = (\<Sum>r\<leftarrow>runs [digit_b, digit_a, digit_c]. length r - 1)" by blast
  then have n1: "nDuplicates insertion_sort True filled_dump ! 1 = 1" unfolding r by simp
  from t have rep: "mDigits (checkDuplicates insertion_sort False filled_dump) ! 1
      = [digit_b, digit_a, digit_c]" by blast
  from t have "nDuplicates insertion_sort False filled_dump ! 1
      = (\<Sum>r\<leftarrow>runs [digit_b, digit_a, digit_c]. length r - 1)" by blast
  then have n2: "nDuplicates insertion_sort False filled_dump ! 1 = 1" unfolding r by simp
  from insertion_sort_contract[where ?'a = Digit] i p s[symmetric] r kept n1 rep n2 l
  show ?thesis by blast
qed

lemma insertion_sort_Nil: "insertion_sort lt [] = []"
  by (simp add: insertion_sort_def)

lemma tied_example:
  "ties_reversing_sort digit_less [digit_a, digit_c] = [digit_c, digit_a]"
  by (simp add: sort_defs)

lemma tied_keys:
  "digit_key digit_a = (5, 2, 3)" "digit_key digit_c = (5, 2, 3)" "digit_key digit_b = (3, 1, 1)"
  by (simp_all add: digit_key_def digit_a_def digit_b_def digit_c_def)

text \<open>
  Claim C3, as the code has it. \<open>sortDigits\<close> leaves every sector a permutation of its
  digits in non-decreasing lexicographic order of (time bin, row, pad). \<^verbatim>\<open>std::sort\<close>
  promises nothing about entries tied on all three keys, so their relative order is
  not fixed. Sorting a sector that is already sorted leaves its sequence of keys as it
  is, and leaves the sector itself as it is when no two of its entries share a key.
\<close>

theorem sortDigits_sorted_permutation:
  assumes "std_sort_contract srt" and "iSec < length (mDigits dd)"
  shows "length (mDigits (sortDigits srt dd)) = length (mDigits dd) \<and>
         mset (mDigits (sortDigits srt dd) ! iSec) = mset (mDigits dd ! iSec) \<and>
         sorted (map digit_key (mDigits (sortDigits srt dd) ! iSec)) \<and>
         (sorted (map digit_key (mDigits dd ! iSec)) \<longrightarrow>
            map digit_key (mDigits (sortDigits srt dd) ! iSec)
              = map digit_key (mDigits dd ! iSec)) \<and>
         (sorted_wrt digit_less (mDigits dd ! iSec) \<longrightarrow>
            mDigits (sortDigits srt dd) ! iSec = mDigits dd ! iSec)"
proof -
  have n: "mDigits (sortDigits srt dd) ! iSec = srt digit_less (mDigits dd ! iSec)"
    using assms(2) by (simp add: mDigits_sortDigits)
  have l: "length (mDigits (sortDigits srt dd)) = length (mDigits dd)"
    by (simp add: mDigits_sortDigits)
  from l contract_sorted[OF assms(1), of "mDigits dd ! iSec"]
    sort_keeps_keys_of_sorted[OF assms(1), of "mDigits dd ! iSec"]
    sort_keeps_strictly_sorted[OF assms(1), of "mDigits dd ! iSec"]
  show ?thesis unfolding n by blast
qed

theorem sortDigits_sorted_permutation_witness:
  "std_sort_contract (ties_reversing_sort :: Digit sorter) \<and>
   (0::nat) < length (mDigits tied_dump) \<and>
   mDigits tied_dump ! 0 = [digit_a, digit_c] \<and>
   sorted (map digit_key (mDigits tied_dump ! 0)) \<and>
   mDigits (sortDigits ties_reversing_sort tied_dump) ! 0 = [digit_c, digit_a] \<and>
   map digit_key (mDigits (sortDigits ties_reversing_sort tied_dump) ! 0)
     = map digit_key (mDigits tied_dump ! 0) \<and>
   sorted (map digit_key (mDigits (sortDigits ties_reversing_sort tied_dump) ! 0)) \<and>
   sorted_wrt digit_less [digit_b, digit_a] \<and>
   mDigits (sortDigits ties_reversing_sort (tied_dump\<lparr>mDigits := [[digit_b, digit_a]]\<rparr>)) ! 0
     = [digit_b, digit_a]"
proof -
  have i: "(0::nat) < length (mDigits tied_dump)"
    and p: "mDigits tied_dump ! 0 = [digit_a, digit_c]"
    by (simp_all add: tied_dump_def)
  have s: "sorted (map digit_key (mDigits tied_dump ! 0))"
    unfolding p by (simp add: tied_keys)
  have r: "mDigits (sortDigits ties_reversing_sort tied_dump) ! 0 = [digit_c, digit_a]"
    by (simp add: mDigits_sortDigits tied_dump_def tied_example)
  have j: "(0::nat) < length (mDigits (tied_dump\<lparr>mDigits := [[digit_b, digit_a]]\<rparr>))"
    and q: "mDigits (tied_dump\<lparr>mDigits := [[digit_b, digit_a]]\<rparr>) ! 0 = [digit_b, digit_a]"
    by simp_all
  have t: "sorted_wrt digit_less [digit_b, digit_a]"
    by (simp add: sort_defs)
  note a = sortDigits_sorted_permutation[OF ties_reversing_sort_contract i]
  note b = sortDigits_sorted_permutation[OF ties_reversing_sort_contract j, unfolded q]
  from a s have k: "map digit_key (mDigits (sortDigits ties_reversing_sort tied_dump) ! 0)
     = map digit_key (mDigits tied_dump ! 0)" by blast
  from a have o: "sorted (map digit_key (mDigits (sortDigits ties_reversing_sort tied_dump) ! 0))"
    by blast
  from b t have u:
    "mDigits (sortDigits ties_reversing_sort (tied_dump\<lparr>mDigits := [[digit_b, digit_a]]\<rparr>)) ! 0
     = [digit_b, digit_a]" by blast
  from ties_reversing_sort_contract[where ?'a = Digit] i p s r k o t u show ?thesis by blast
qed

text \<open>
  Stability fails for the sort of the library on a sector of seventeen digits that is
  already sorted and holds one digit twice: the median-of-three partition moves the
  digit at position 8 to the front, and the insertion sort that finishes puts it back
  before its twin of position 7. The two tied digits come out exchanged, so the sort is
  not stable and the sorted sector is not the one it started from.
\<close>

lemma seventeen_example:
  "libstdcxx_sort digit_less seventeen_digits = seventeen_sorted"
  unfolding seventeen_digits_def seventeen_sorted_def timed_digit_def by code_simp

theorem sortDigits_stable_counterexample:
  "mDigits seventeen_dump = [seventeen_digits] \<and>
   sorted (map digit_key seventeen_digits) \<and>
   seventeen_digits ! 7 = timed_digit 7 7 \<and> seventeen_digits ! 8 = timed_digit 8 7 \<and>
   digit_key (timed_digit 7 7) = digit_key (timed_digit 8 7) \<and>
   timed_digit 7 7 \<noteq> timed_digit 8 7 \<and>
   mDigits (sortDigits libstdcxx_sort seventeen_dump) = [seventeen_sorted] \<and>
   seventeen_sorted ! 7 = timed_digit 8 7 \<and> seventeen_sorted ! 8 = timed_digit 7 7 \<and>
   sortDigits libstdcxx_sort seventeen_dump \<noteq> seventeen_dump"
proof -
  have d: "mDigits seventeen_dump = [seventeen_digits]"
    by (simp add: seventeen_dump_def)
  have s: "sorted (map digit_key seventeen_digits)"
    by (simp add: seventeen_digits_def timed_digit_def digit_key_def)
  have p: "seventeen_digits ! 7 = timed_digit 7 7" "seventeen_digits ! 8 = timed_digit 8 7"
    by (simp_all add: seventeen_digits_def)
  have k: "digit_key (timed_digit 7 7) = digit_key (timed_digit 8 7)"
    by (simp add: timed_digit_def digit_key_def)
  have n: "timed_digit 7 7 \<noteq> timed_digit 8 7"
    by (simp add: timed_digit_def)
  have r: "mDigits (sortDigits libstdcxx_sort seventeen_dump) = [seventeen_sorted]"
    by (simp add: mDigits_sortDigits seventeen_dump_def seventeen_example)
  have q: "seventeen_sorted ! 7 = timed_digit 8 7" "seventeen_sorted ! 8 = timed_digit 7 7"
    by (simp_all add: seventeen_sorted_def)
  from p q n have "seventeen_sorted \<noteq> seventeen_digits" by metis
  with d r have m: "sortDigits libstdcxx_sort seventeen_dump \<noteq> seventeen_dump" by auto
  from d s p k n r q m show ?thesis by blast
qed

text \<open>
  Claim C2, as the code has it. \<open>endEvent\<close> sorts, fills the tree and clears, in this
  order, and removes no duplicates. With an output tree present, the entry filled is the
  sorted sectors: each sector emitted is a permutation of the stored one in key order,
  and it is free of entries with identical (time bin, row, pad) exactly when the stored
  sector was. Afterwards every sector is empty.
\<close>

theorem endEvent_sorts_fills_clears:
  assumes "std_sort_contract srt" and "mTree dd = Some entries"
    and "iSec < length (mDigits dd)" and "emitted = map (srt digit_less) (mDigits dd)"
  shows "endEvent srt dd
           = Inr (dd\<lparr>mDigits := replicate (length (mDigits dd)) [],
                     mTree := Some (entries @ [emitted])\<rparr>) \<and>
         mset (emitted ! iSec) = mset (mDigits dd ! iSec) \<and>
         sorted (map digit_key (emitted ! iSec)) \<and>
         (distinct (map digit_key (emitted ! iSec))
            \<longleftrightarrow> distinct (map digit_key (mDigits dd ! iSec)))"
proof -
  have e: "endEvent srt dd
           = Inr (dd\<lparr>mDigits := replicate (length (mDigits dd)) [],
                     mTree := Some (entries @ [emitted])\<rparr>)"
    using assms(2)
    by (simp add: endEvent_def Let_def sortDigits_def clearDigits_def assms(4) comp_def
        map_replicate_const)
  have n: "emitted ! iSec = srt digit_less (mDigits dd ! iSec)"
    using assms(3) by (simp add: assms(4))
  note c = contract_sorted[OF assms(1), of "mDigits dd ! iSec"]
  from c(1) have "mset (map digit_key (srt digit_less (mDigits dd ! iSec)))
      = mset (map digit_key (mDigits dd ! iSec))" by simp
  then have d: "distinct (map digit_key (srt digit_less (mDigits dd ! iSec)))
            \<longleftrightarrow> distinct (map digit_key (mDigits dd ! iSec))"
    by (rule mset_eq_imp_distinct_iff)
  from e c d show ?thesis unfolding n by blast
qed

lemma endEvent_example:
  "endEvent insertion_sort filled_dump
     = Inr (ready_dump\<lparr>mDigits := [[], [], []],
                       mTree := Some [[[], [digit_b, digit_a, digit_c], []]]\<rparr>)"
  by (simp add: endEvent_def Let_def sortDigits_def clearDigits_def dump_defs sort_defs)

theorem endEvent_sorts_fills_clears_witness:
  "std_sort_contract (insertion_sort :: Digit sorter) \<and>
   mTree filled_dump = Some [] \<and>
   (1::nat) < length (mDigits filled_dump) \<and>
   map (insertion_sort digit_less) (mDigits filled_dump)
     = [[], [digit_b, digit_a, digit_c], []] \<and>
   endEvent insertion_sort filled_dump
     = Inr (filled_dump\<lparr>mDigits := replicate (length (mDigits filled_dump)) [],
                        mTree := Some ([] @ [[[], [digit_b, digit_a, digit_c], []]])\<rparr>) \<and>
   \<not> distinct (map digit_key (mDigits filled_dump ! 1)) \<and>
   \<not> distinct (map digit_key ([[], [digit_b, digit_a, digit_c], []] ! 1))"
proof -
  have t: "mTree filled_dump = Some []"
    and i: "(1::nat) < length (mDigits filled_dump)"
    by (simp_all add: dump_defs)
  have m: "[[], [digit_b, digit_a, digit_c], []]
      = map (insertion_sort digit_less) (mDigits filled_dump)"
    by (simp add: filled_dump_def sorted_example insertion_sort_Nil)
  have nd: "\<not> distinct (map digit_key (mDigits filled_dump ! 1))"
    by (simp add: filled_dump_def tied_keys)
  note a = endEvent_sorts_fills_clears[OF insertion_sort_contract t i m]
  from a have e: "endEvent insertion_sort filled_dump
     = Inr (filled_dump\<lparr>mDigits := replicate (length (mDigits filled_dump)) [],
                        mTree := Some ([] @ [[[], [digit_b, digit_a, digit_c], []]])\<rparr>)"
    by blast
  from a nd have ne: "\<not> distinct (map digit_key ([[], [digit_b, digit_a, digit_c], []] ! 1))"
    by blast
  from insertion_sort_contract[where ?'a = Digit] t i m[symmetric] e nd ne
  show ?thesis by blast
qed

text \<open>
  The sector of the specification's example is emitted with both digits of time bin 5,
  row 2, pad 3.
\<close>

theorem endEvent_emits_duplicates_counterexample:
  "endEvent insertion_sort filled_dump
     = Inr (ready_dump\<lparr>mDigits := [[], [], []],
                       mTree := Some [[[], [digit_b, digit_a, digit_c], []]]\<rparr>) \<and>
   getTimeStamp digit_a = getTimeStamp digit_c \<and> getRow digit_a = getRow digit_c \<and>
   getPad digit_a = getPad digit_c \<and> digit_a \<noteq> digit_c"
  by (simp add: endEvent_example) (simp add: digit_a_def digit_c_def)

end
